theory Spec2Isabelle
  imports Complex_Main
begin

section \<open>Python values used by the scraper\<close>

text \<open>
  The development embeds \<^verbatim>\<open>scraping/basic_playground/main.py\<close> and
  \<^verbatim>\<open>status_codes.py\<close>. A Python \<^verbatim>\<open>str\<close> is a \<open>string\<close>; a character is read
  as the code point of the same number, so the model covers the code points
  U+0000 to U+00FF. Output printed with \<^verbatim>\<open>print\<close> is narration only and is
  left out. Exceptions are values of \<open>exn\<close>: the instances of Python's
  \<^verbatim>\<open>Exception\<close>, which is what every \<^verbatim>\<open>except Exception\<close> of the source catches.
\<close>

datatype exn =
    FileNotFoundError
  | RuntimeError
  | ValueError
  | KeyError
  | AttributeError
  | JSONDecodeError
  | UnicodeEncodeError
  | OSError
  | CollaboratorError string

text \<open>A decoded JSON value; \<open>JNull\<close> is Python's \<^verbatim>\<open>None\<close>.\<close>

datatype json =
    JNull
  | JBool bool
  | JInt int
  | JFloat real
  | JStr string
  | JArr "json list"
  | JObj "(string \<times> json) list"

text \<open>
  A \<^verbatim>\<open>dict\<close> with string keys keeps its insertion order: an association list
  with one entry per key. \<open>setitem\<close> is \<^verbatim>\<open>d[k] = v\<close>: an existing key keeps its
  place, a new one goes last.
\<close>

type_synonym pydict = "(string \<times> json) list"

primrec setitem :: "string \<Rightarrow> json \<Rightarrow> pydict \<Rightarrow> pydict" where
  "setitem k v [] = [(k, v)]"
| "setitem k v (p # ps) = (if fst p = k then (k, v) # ps else p # setitem k v ps)"

definition keys :: "pydict \<Rightarrow> string list" where
  "keys d = map fst d"

definition getitem :: "pydict \<Rightarrow> string \<Rightarrow> json option" where
  "getitem d k = map_of d k"

subsection \<open>String methods\<close>

text \<open>\<^verbatim>\<open>str.isspace\<close> on one character, for the code points below 256.\<close>

definition py_isspace :: "char \<Rightarrow> bool" where
  "py_isspace c = ((of_char c :: nat) \<in> {9, 10, 11, 12, 13, 28, 29, 30, 31, 32, 133, 160})"

definition strip :: "string \<Rightarrow> string" where
  "strip s = rev (dropWhile py_isspace (rev (dropWhile py_isspace s)))"

definition startswith :: "string \<Rightarrow> string \<Rightarrow> bool" where
  "startswith s p = (take (length p) s = p)"

text \<open>
  \<^verbatim>\<open>str.splitlines\<close>: a line ends at \<^verbatim>\<open>\n\<close>, \<^verbatim>\<open>\r\<close>, \<^verbatim>\<open>\r\n\<close>, \<^verbatim>\<open>\v\<close>, \<^verbatim>\<open>\f\<close>,
  \<^verbatim>\<open>\x1c\<close>, \<^verbatim>\<open>\x1d\<close>, \<^verbatim>\<open>\x1e\<close> or \<^verbatim>\<open>\x85\<close>; the terminators are dropped and a
  final terminator opens no empty line.
\<close>

definition is_linebreak :: "char \<Rightarrow> bool" where
  "is_linebreak c = ((of_char c :: nat) \<in> {10, 11, 12, 13, 28, 29, 30, 133})"

fun splitlines_from :: "string \<Rightarrow> string \<Rightarrow> string list" where
  "splitlines_from cur [] = (if cur = [] then [] else [cur])"
| "splitlines_from cur [c] =
     (if is_linebreak c then [cur] else [cur @ [c]])"
| "splitlines_from cur (c # d # cs) =
     (if (of_char c :: nat) = 13 \<and> (of_char d :: nat) = 10 then cur # splitlines_from [] cs
      else if is_linebreak c then cur # splitlines_from [] (d # cs)
      else splitlines_from (cur @ [c]) (d # cs))"

definition splitlines :: "string \<Rightarrow> string list" where
  "splitlines s = splitlines_from [] s"

text \<open>\<^verbatim>\<open>s[:n]\<close>: a negative bound counts from the end.\<close>

definition slice_to :: "string \<Rightarrow> int \<Rightarrow> string" where
  "slice_to s n = (if 0 \<le> n then take (nat n) s else take (length s - nat (- n)) s)"

text \<open>\<^verbatim>\<open>x or ""\<close> for a value that is a string or \<^verbatim>\<open>None\<close>.\<close>

definition or_empty :: "string option \<Rightarrow> string" where
  "or_empty x = (case x of None \<Rightarrow> [] | Some s \<Rightarrow> s)"

section \<open>Status registry (status_codes.py)\<close>

record status_row =
  cd_std :: string
  cd_name :: string
  cd_desc :: string

definition STATUS_DEFINITIONS :: "status_row list" where
  "STATUS_DEFINITIONS = [
    \<lparr>cd_std = ''000000'', cd_name = ''SUCCESS'',
      cd_desc = ''Request completed successfully with a high-confidence extraction result.''\<rparr>,
    \<lparr>cd_std = ''000050'', cd_name = ''PARTIAL_SUCCESS'',
      cd_desc = ''Request completed but some fields are missing, low-confidence, or degraded.''\<rparr>,
    \<lparr>cd_std = ''000100'', cd_name = ''CRAWL_FAILED'',
      cd_desc = ''Generic crawl failure (navigation, page load, or unknown browser error).''\<rparr>,
    \<lparr>cd_std = ''000101'', cd_name = ''NO_CONTENT_EXTRACTED'',
      cd_desc = ''Page loaded but no usable content could be extracted (empty or stripped body).''\<rparr>,
    \<lparr>cd_std = ''000102'', cd_name = ''CRAWL_TIMEOUT'',
      cd_desc = ''Crawl exceeded the configured timeout before the wait condition was satisfied.''\<rparr>,
    \<lparr>cd_std = ''000103'', cd_name = ''CRAWL_INTERACTION_ERROR'',
      cd_desc = ''Crawl failed during page interaction (clicks/JS execution/scrolling).''\<rparr>,
    \<lparr>cd_std = ''000104'', cd_name = ''CRAWL_HTTP_ERROR'',
      cd_desc = ''Crawl received a non-2xx HTTP status code from the target URL.''\<rparr>,
    \<lparr>cd_std = ''000105'', cd_name = ''CRAWL_BLOCKED_OR_CAPTCHA'',
      cd_desc = ''Crawl appears to be blocked by anti-bot measures, CAPTCHA, or similar protection.''\<rparr>,
    \<lparr>cd_std = ''000200'', cd_name = ''GEMINI_CALL_FAILED'',
      cd_desc = ''Generic Gemini API failure (network, service, or SDK-level error).''\<rparr>,
    \<lparr>cd_std = ''000201'', cd_name = ''GEMINI_JSON_PARSE_FAILED'',
      cd_desc = ''Gemini returned a response that could not be parsed as the expected JSON schema.''\<rparr>,
    \<lparr>cd_std = ''000202'', cd_name = ''GEMINI_RATE_LIMITED'',
      cd_desc = ''Gemini request was rejected due to rate limiting or quota exhaustion.''\<rparr>,
    \<lparr>cd_std = ''000203'', cd_name = ''GEMINI_AUTH_FAILED'',
      cd_desc = ''Gemini request failed due to invalid or missing authentication credentials.''\<rparr>,
    \<lparr>cd_std = ''000204'', cd_name = ''GEMINI_MODEL_NOT_FOUND'',
      cd_desc = ''Requested Gemini model does not exist or is not available to this project.''\<rparr>,
    \<lparr>cd_std = ''000205'', cd_name = ''GEMINI_INVALID_OUTPUT_SCHEMA'',
      cd_desc = ''Gemini returned structured output that violates the declared JSON schema.''\<rparr>,
    \<lparr>cd_std = ''000300'', cd_name = ''CONFIG_ERROR'',
      cd_desc = ''Generic configuration error (invalid settings or incompatible options).''\<rparr>,
    \<lparr>cd_std = ''000301'', cd_name = ''CONFIG_MISSING_ENV'',
      cd_desc = ''Required environment variable is missing (e.g. GEMINI_API_KEY).''\<rparr>,
    \<lparr>cd_std = ''000302'', cd_name = ''CONFIG_INVALID_ENV_VALUE'',
      cd_desc = ''Environment variable is present but has an invalid or unsupported value.''\<rparr>,
    \<lparr>cd_std = ''000400'', cd_name = ''INPUT_ERROR'',
      cd_desc = ''Generic input error (malformed data or unsupported format).''\<rparr>,
    \<lparr>cd_std = ''000401'', cd_name = ''INPUT_URL_LIST_EMPTY'',
      cd_desc = ''No URLs were provided for processing (urls.txt empty or filtered out).''\<rparr>,
    \<lparr>cd_std = ''000402'', cd_name = ''INPUT_URL_INVALID'',
      cd_desc = ''One or more URLs are invalid, malformed, or use an unsupported scheme.''\<rparr>,
    \<lparr>cd_std = ''000500'', cd_name = ''SYSTEM_ERROR'',
      cd_desc = ''Generic system/runtime error (unexpected exception in the pipeline).''\<rparr>,
    \<lparr>cd_std = ''000501'', cd_name = ''SYSTEM_IO_ERROR'',
      cd_desc = ''Filesystem or I/O operation failed (read/write permissions, missing file, etc.).''\<rparr>,
    \<lparr>cd_std = ''000502'', cd_name = ''SYSTEM_DEPENDENCY_MISSING'',
      cd_desc = ''Required library, binary, or runtime dependency is missing or not installed.''\<rparr>,
    \<lparr>cd_std = ''000999'', cd_name = ''UNEXPECTED_ERROR'',
      cd_desc = ''An unexpected, uncategorised error occurred that does not match other codes.''\<rparr>
  ]"

text \<open>
  \<^verbatim>\<open>{row["cd_name"]: row for row in STATUS_DEFINITIONS}\<close>: the rows are
  stored one after the other, a later row replacing an earlier one of the
  same name.
\<close>

definition put_row :: "status_row \<Rightarrow> (string \<rightharpoonup> status_row) \<Rightarrow> (string \<rightharpoonup> status_row)" where
  "put_row row m = m(cd_name row \<mapsto> row)"

definition by_name :: "status_row list \<Rightarrow> string \<rightharpoonup> status_row" where
  "by_name rows = fold put_row rows Map.empty"

definition STATUS_BY_NAME :: "string \<rightharpoonup> status_row" where
  "STATUS_BY_NAME = by_name STATUS_DEFINITIONS"

text \<open>
  \<^verbatim>\<open>STATUS_BY_NAME.get(status_name, STATUS_BY_NAME["UNEXPECTED_ERROR"])\<close>: the
  default is evaluated first, and its subscript raises \<^verbatim>\<open>KeyError\<close> if the
  key is missing.
\<close>

definition status_row_of :: "string \<Rightarrow> exn + status_row" where
  "status_row_of status_name =
     (case STATUS_BY_NAME ''UNEXPECTED_ERROR'' of
        None \<Rightarrow> Inl KeyError
      | Some dflt \<Rightarrow>
          Inr (case STATUS_BY_NAME status_name of Some row \<Rightarrow> row | None \<Rightarrow> dflt))"


text \<open>The catch-all row, the last one of the table.\<close>

definition UNEXPECTED_ERROR_row :: status_row where
  "UNEXPECTED_ERROR_row = \<lparr>cd_std = ''000999'', cd_name = ''UNEXPECTED_ERROR'',
     cd_desc = ''An unexpected, uncategorised error occurred that does not match other codes.''\<rparr>"

section \<open>Phone candidates (main.py, extract_phone_candidates_from_html)\<close>

text \<open>
  The four patterns of \<^verbatim>\<open>phone_patterns\<close> are built from one-character atoms
  (a literal, \<^verbatim>\<open>\d\<close>, \<^verbatim>\<open>[-\s]\<close>), \<^verbatim>\<open>?\<close>, counted repetition \<^verbatim>\<open>{m,n}\<close> and
  \<^verbatim>\<open>\b\<close>. They are matched the way \<^verbatim>\<open>re\<close> matches them: leftmost, greedy,
  backtracking. For the code points below 256, \<^verbatim>\<open>\d\<close> is an ASCII digit,
  \<^verbatim>\<open>\s\<close> is \<^verbatim>\<open>str.isspace\<close>, and a word character is alphanumeric or \<^verbatim>\<open>_\<close>.
\<close>

datatype atom = Lit char | Digit | DashOrSpace

datatype rx_item = WordBoundary | One atom | Optional atom | Repeat atom nat nat

definition is_digit :: "char \<Rightarrow> bool" where
  "is_digit c = (48 \<le> (of_char c :: nat) \<and> (of_char c :: nat) \<le> 57)"

definition is_word :: "char \<Rightarrow> bool" where
  "is_word c =
     (let n = (of_char c :: nat) in
        (48 \<le> n \<and> n \<le> 57) \<or> (65 \<le> n \<and> n \<le> 90) \<or> n = 95 \<or> (97 \<le> n \<and> n \<le> 122) \<or>
        n \<in> {170, 178, 179, 181, 185, 186, 188, 189, 190} \<or>
        (192 \<le> n \<and> n \<le> 214) \<or> (216 \<le> n \<and> n \<le> 246) \<or> (248 \<le> n \<and> n \<le> 255))"

fun atom_ok :: "atom \<Rightarrow> char \<Rightarrow> bool" where
  "atom_ok (Lit x) c = (c = x)"
| "atom_ok Digit c = is_digit c"
| "atom_ok DashOrSpace c = (c = CHR ''-'' \<or> py_isspace c)"

text \<open>\<^verbatim>\<open>\b\<close> between the character before the position and the one after it.\<close>

definition at_boundary :: "char option \<Rightarrow> string \<Rightarrow> bool" where
  "at_boundary prev s =
     ((case prev of None \<Rightarrow> False | Some c \<Rightarrow> is_word c) \<noteq>
      (case s of [] \<Rightarrow> False | c # _ \<Rightarrow> is_word c))"

text \<open>
  \<open>match_here pat prev s\<close> matches the pattern at the start of \<open>s\<close>, \<open>prev\<close>
  being the character before it, and returns what is left of \<open>s\<close> after the
  match the backtracking search finds first.
\<close>

fun match_here :: "rx_item list \<Rightarrow> char option \<Rightarrow> string \<Rightarrow> string option" where
  "match_here [] prev s = Some s"
| "match_here (WordBoundary # r) prev s =
     (if at_boundary prev s then match_here r prev s else None)"
| "match_here (One a # r) prev [] = None"
| "match_here (One a # r) prev (c # cs) =
     (if atom_ok a c then match_here r (Some c) cs else None)"
| "match_here (Optional a # r) prev [] = match_here r prev []"
| "match_here (Optional a # r) prev (c # cs) =
     (if atom_ok a c then
        (case match_here r (Some c) cs of
           Some rest \<Rightarrow> Some rest
         | None \<Rightarrow> match_here r prev (c # cs))
      else match_here r prev (c # cs))"
| "match_here (Repeat a lo hi # r) prev [] =
     (if lo = 0 then match_here r prev [] else None)"
| "match_here (Repeat a lo hi # r) prev (c # cs) =
     (if 0 < hi \<and> atom_ok a c then
        (case match_here (Repeat a (lo - 1) (hi - 1) # r) (Some c) cs of
           Some rest \<Rightarrow> Some rest
         | None \<Rightarrow> (if lo = 0 then match_here r prev (c # cs) else None))
      else (if lo = 0 then match_here r prev (c # cs) else None))"

text \<open>
  \<^verbatim>\<open>re.finditer(pat, raw_html)\<close>, as the list of \<^verbatim>\<open>m.group(0)\<close>: the scan goes
  left to right and resumes where a match ended. An empty match yields the
  empty string and the scan moves on by one character; no pattern of the
  source matches the empty string.
\<close>

function finditer :: "rx_item list \<Rightarrow> char option \<Rightarrow> string \<Rightarrow> string list" where
  "finditer pat prev s =
     (case match_here pat prev s of
        None \<Rightarrow> (case s of [] \<Rightarrow> [] | c # cs \<Rightarrow> finditer pat (Some c) cs)
      | Some rest \<Rightarrow>
          (if length s - length rest = 0 then
             (case s of [] \<Rightarrow> [[]] | c # cs \<Rightarrow> [] # finditer pat (Some c) cs)
           else take (length s - length rest) s
                  # finditer pat (Some (last (take (length s - length rest) s))) rest))"
  by pat_completeness auto
termination
  by (relation "measure (\<lambda>(pat, prev, s). length s)") auto

declare finditer.simps [simp del]

definition phone_patterns :: "rx_item list list" where
  "phone_patterns = [
     [WordBoundary, One (Lit CHR ''0''), One (Lit CHR ''1''), One Digit, Optional DashOrSpace,
      Repeat Digit 3 3, Optional DashOrSpace, Repeat Digit 4 4, WordBoundary],
     [WordBoundary, One (Lit CHR ''0''), One (Lit CHR ''1''), One Digit, Repeat Digit 7 8,
      WordBoundary],
     [WordBoundary, One (Lit CHR ''0''), Repeat Digit 1 2, One (Lit CHR ''-''), Repeat Digit 6 8,
      WordBoundary],
     [WordBoundary, One (Lit CHR ''6''), Repeat Digit 8 11, WordBoundary]
   ]"

text \<open>The body of the inner loop: strip the match, append it unless present.\<close>

definition add_candidate :: "string \<Rightarrow> string list \<Rightarrow> string list" where
  "add_candidate m candidates =
     (let val = strip m in if val \<notin> set candidates then candidates @ [val] else candidates)"

definition extract_phone_candidates_from_html :: "string \<Rightarrow> string list" where
  "extract_phone_candidates_from_html raw_html =
     fold (\<lambda>pat candidates. fold add_candidate (finditer pat None raw_html) candidates)
       phone_patterns []"

text \<open>
  The strings a pattern can match, word boundaries left aside: what the
  matcher consumes is always one of them.
\<close>

fun lang :: "rx_item list \<Rightarrow> string set" where
  "lang [] = {[]}"
| "lang (WordBoundary # r) = lang r"
| "lang (One a # r) = {c # w | c w. atom_ok a c \<and> w \<in> lang r}"
| "lang (Optional a # r) = {c # w | c w. atom_ok a c \<and> w \<in> lang r} \<union> lang r"
| "lang (Repeat a lo hi # r) =
     {cs @ w | cs w. lo \<le> length cs \<and> length cs \<le> hi \<and> (\<forall>c \<in> set cs. atom_ok a c) \<and> w \<in> lang r}"

section \<open>Collaborators, configuration and the world\<close>

text \<open>
  The module constants read from the environment at import time. Only the
  ones the pipeline logic uses are kept; \<^verbatim>\<open>int(os.getenv(...))\<close> accepts any
  integer, so the bounds may be zero or negative.
\<close>

record config =
  MAX_CONTENT_CHARS :: int
  GEMINI_MODEL :: string
  GEMINI_MAX_ATTEMPTS :: int

text \<open>What \<^verbatim>\<open>crawler.arun\<close> returns: the attributes the source reads.\<close>

record markdown_result =
  raw_markdown :: "string option"
  fit_markdown :: "string option"

record crawl_result =
  success :: bool
  error_message :: "string option"
  html :: "string option"
  cleaned_html :: "string option"
  markdown :: "markdown_result option"

text \<open>
  What \<^verbatim>\<open>client.models.generate_content\<close> returns. The \<^verbatim>\<open>usage\<close> dictionary the
  source builds from \<^verbatim>\<open>usage_metadata\<close> has the same three entries, so one
  record serves for both.
\<close>

record usage_metadata =
  prompt_token_count :: "int option"
  candidates_token_count :: "int option"
  total_token_count :: "int option"

record gemini_response =
  response_usage_metadata :: "usage_metadata option"
  response_text :: "string option"

text \<open>
  The two parts of \<^verbatim>\<open>base_prompt\<close> that vary: the candidate list and the
  truncated page content. The fixed instructions around them are left out.
\<close>

record prompt =
  phone_candidates :: "string list"
  content :: string

text \<open>
  The output file as a run leaves it: the document that was handed to
  \<^verbatim>\<open>json.dumps\<close>, or a file that was opened for writing and holds no complete
  document (it is empty when the encoder refused the text).
\<close>

datatype file_content = Document json | Truncated

text \<open>
  What \<^verbatim>\<open>output_path.write_text(json.dumps(results, ...))\<close> does with a
  document. \<^verbatim>\<open>json.dumps\<close> or the opening of the file may raise, which leaves
  the file as it was. The text may also be refused once the file is open,
  which leaves the file truncated: \<^verbatim>\<open>write_text\<close> is called with
  \<^verbatim>\<open>ensure_ascii=False\<close> text and no \<^verbatim>\<open>encoding\<close>, so a character the encoding
  of the platform does not have raises \<^verbatim>\<open>UnicodeEncodeError\<close>, and so does a
  lone surrogate that \<^verbatim>\<open>json.loads\<close> decoded from an answer. Such characters
  lie outside the strings of this model, so whether a document is accepted is
  a property of the outside world.
\<close>

datatype write_result = Written | Raised_before_open exn | Raised_after_open exn

text \<open>
  The behaviour of the outside world, fixed for one run. A call to a
  collaborator is identified by its arguments and by the number of calls made
  before it; it takes some time and returns or raises. \<^verbatim>\<open>json.loads\<close>, the
  wall clock and the writing of the output file are library functions taken
  as parameters.
\<close>

record collab =
  arun :: "string \<Rightarrow> nat \<Rightarrow> real \<times> (exn + crawl_result)"
  generate_content :: "string \<Rightarrow> string \<Rightarrow> prompt \<Rightarrow> nat \<Rightarrow> real \<times> (exn + gemini_response)"
  json_loads :: "string \<Rightarrow> exn + json"
  utcnow_isoformat :: "real \<Rightarrow> string"
  write_text :: "json \<Rightarrow> write_result"

text \<open>
  The state a run changes: the reading of \<^verbatim>\<open>time.perf_counter\<close>, how often each
  collaborator was called, and the output file (\<open>None\<close> while this run has not
  touched it).
\<close>

record world =
  now :: real
  crawl_calls :: nat
  gemini_calls :: nat
  output_file :: "file_content option"

record os_env =
  urls_file :: "string option"
  GEMINI_API_KEY :: "string option"
  GOOGLE_API_KEY :: "string option"

section \<open>Schema and metadata (main.py)\<close>

definition FIELD_NAMES :: "string list" where
  "FIELD_NAMES = [''url'', ''listing_title'', ''project_name'', ''area'', ''state'', ''price'',
     ''sq_ft'', ''bedrooms'', ''bathrooms'', ''property_type'', ''carpark'', ''floor_range'',
     ''phone_number'', ''description'']"

text \<open>\<^verbatim>\<open>{k: (url if k == "url" else None) for k in FIELD_NAMES}\<close>\<close>

definition empty_record :: "string \<Rightarrow> pydict" where
  "empty_record url =
     fold (\<lambda>k d. setitem k (if k = ''url'' then JStr url else JNull) d) FIELD_NAMES []"

record GeminiMeta =
  status_key :: string
  status_code :: string
  gemini_model :: "string option"
  gemini_attempts :: int
  gemini_prompt_tokens :: "int option"
  gemini_response_tokens :: "int option"
  gemini_total_tokens :: "int option"
  gemini_duration_sec :: "real option"
  crawl_duration_sec :: "real option"
  total_duration_sec :: "real option"
  timestamp_utc :: "string option"

definition json_str :: "string option \<Rightarrow> json" where
  "json_str x = (case x of None \<Rightarrow> JNull | Some s \<Rightarrow> JStr s)"

definition json_int :: "int option \<Rightarrow> json" where
  "json_int x = (case x of None \<Rightarrow> JNull | Some i \<Rightarrow> JInt i)"

definition json_float :: "real option \<Rightarrow> json" where
  "json_float x = (case x of None \<Rightarrow> JNull | Some r \<Rightarrow> JFloat r)"

text \<open>\<^verbatim>\<open>dataclasses.asdict\<close>: one entry per field, in declaration order.\<close>

definition asdict :: "GeminiMeta \<Rightarrow> pydict" where
  "asdict m = [
     (''status_key'', JStr (status_key m)),
     (''status_code'', JStr (status_code m)),
     (''gemini_model'', json_str (gemini_model m)),
     (''gemini_attempts'', JInt (gemini_attempts m)),
     (''gemini_prompt_tokens'', json_int (gemini_prompt_tokens m)),
     (''gemini_response_tokens'', json_int (gemini_response_tokens m)),
     (''gemini_total_tokens'', json_int (gemini_total_tokens m)),
     (''gemini_duration_sec'', json_float (gemini_duration_sec m)),
     (''crawl_duration_sec'', json_float (crawl_duration_sec m)),
     (''total_duration_sec'', json_float (total_duration_sec m)),
     (''timestamp_utc'', json_str (timestamp_utc m))]"

text \<open>\<^verbatim>\<open>usage.get(key)\<close> after \<^verbatim>\<open>usage = usage or {}\<close>.\<close>

definition usage_get :: "usage_metadata option \<Rightarrow> (usage_metadata \<Rightarrow> int option) \<Rightarrow> int option" where
  "usage_get usage field = (case usage of None \<Rightarrow> None | Some u \<Rightarrow> field u)"

definition make_meta ::
  "collab \<Rightarrow> world \<Rightarrow> string \<Rightarrow> real option \<Rightarrow> real option \<Rightarrow> string option \<Rightarrow> int \<Rightarrow>
   usage_metadata option \<Rightarrow> real option \<Rightarrow> exn + pydict" where
  "make_meta env w status_name crawl_duration total_duration model attempts usage gemini_duration =
     (case status_row_of status_name of
        Inl e \<Rightarrow> Inl e
      | Inr row \<Rightarrow>
          (let ts = utcnow_isoformat env (now w) @ ''Z'' in
           Inr (asdict \<lparr>
             status_key = cd_name row,
             status_code = cd_std row,
             gemini_model = model,
             gemini_attempts = attempts,
             gemini_prompt_tokens = usage_get usage prompt_token_count,
             gemini_response_tokens = usage_get usage candidates_token_count,
             gemini_total_tokens = usage_get usage total_token_count,
             gemini_duration_sec = gemini_duration,
             crawl_duration_sec = crawl_duration,
             total_duration_sec = total_duration,
             timestamp_utc = Some ts\<rparr>)))"

section \<open>Fetching a page (main.py, fetch_page_text_and_html)\<close>

text \<open>
  Returns \<^verbatim>\<open>(page_text, raw_html, crawl_duration)\<close>, or raises: \<^verbatim>\<open>ValueError\<close>
  for an empty URL, whatever \<^verbatim>\<open>arun\<close> raises, \<^verbatim>\<open>RuntimeError\<close> when the result
  reports no success.
\<close>

definition fetch_page_text_and_html ::
  "collab \<Rightarrow> string \<Rightarrow> world \<Rightarrow> (exn + string \<times> string \<times> real) \<times> world" where
  "fetch_page_text_and_html env url0 w =
     (let url = strip url0 in
      if url = [] then (Inl ValueError, w)
      else
        (let (elapsed, outcome) = arun env url (crawl_calls w);
             w1 = w\<lparr>now := now w + elapsed, crawl_calls := Suc (crawl_calls w)\<rparr>;
             crawl_duration = now w1 - now w
         in case outcome of
              Inl e \<Rightarrow> (Inl e, w1)
            | Inr result \<Rightarrow>
                if \<not> success result then (Inl RuntimeError, w1)
                else
                  (let raw_html = or_empty (html result);
                       cleaned = or_empty (cleaned_html result);
                       raw_md = or_empty (case markdown result of
                                            None \<Rightarrow> Some []
                                          | Some md \<Rightarrow> raw_markdown md);
                       page_text = (if raw_md \<noteq> [] then raw_md
                                    else if cleaned \<noteq> [] then cleaned
                                    else raw_html)
                   in (Inr (page_text, raw_html, crawl_duration), w1))))"

section \<open>Extraction with retries (main.py, extract_with_gemini)\<close>

text \<open>\<^verbatim>\<open>data.get(k, None)\<close>: only a JSON object has \<^verbatim>\<open>get\<close>.\<close>

definition data_get :: "json \<Rightarrow> string \<Rightarrow> exn + json" where
  "data_get data k =
     (case data of
        JObj d \<Rightarrow> Inr (case map_of d k of Some v \<Rightarrow> v | None \<Rightarrow> JNull)
      | _ \<Rightarrow> Inl AttributeError)"

text \<open>The loop \<^verbatim>\<open>for k in FIELD_NAMES\<close> that fills the record.\<close>

fun fill_record :: "string \<Rightarrow> json \<Rightarrow> string list \<Rightarrow> pydict \<Rightarrow> exn + pydict" where
  "fill_record url data [] record = Inr record"
| "fill_record url data (k # ks) record =
     (if k = ''url'' then fill_record url data ks (setitem k (JStr url) record)
      else (case data_get data k of
              Inl e \<Rightarrow> Inl e
            | Inr v \<Rightarrow> fill_record url data ks (setitem k v record)))"

text \<open>
  The body of the \<^verbatim>\<open>try\<close> of one attempt, \<open>attempts\<close> being the count already
  incremented. It returns the record and its metadata, or the exception the
  \<^verbatim>\<open>except\<close> clause catches, together with the values of \<^verbatim>\<open>usage\<close> and
  \<^verbatim>\<open>gemini_duration\<close> as the attempt leaves them.
\<close>

definition gemini_attempt ::
  "collab \<Rightarrow> config \<Rightarrow> string \<Rightarrow> string \<Rightarrow> prompt \<Rightarrow> real \<Rightarrow> real \<Rightarrow> int \<Rightarrow>
   usage_metadata option \<Rightarrow> real option \<Rightarrow> world \<Rightarrow>
   (exn + pydict \<times> pydict) \<times> usage_metadata option \<times> real option \<times> world" where
  "gemini_attempt env cfg client url base_prompt crawl_duration t0_total attempts usage
       gemini_duration w =
     (let (elapsed, outcome) =
            generate_content env client (GEMINI_MODEL cfg) base_prompt (gemini_calls w);
          w1 = w\<lparr>now := now w + elapsed, gemini_calls := Suc (gemini_calls w)\<rparr>
      in case outcome of
           Inl e \<Rightarrow> (Inl e, usage, gemini_duration, w1)
         | Inr response \<Rightarrow>
             (let gemini_duration1 = Some (now w1 - now w);
                  usage1 = (case response_usage_metadata response of
                              Some usage_meta \<Rightarrow> Some usage_meta
                            | None \<Rightarrow> usage);
                  raw = strip (or_empty (response_text response))
              in case json_loads env raw of
                   Inl e \<Rightarrow> (Inl e, usage1, gemini_duration1, w1)
                 | Inr data \<Rightarrow>
                     (case fill_record url data FIELD_NAMES (empty_record url) of
                        Inl e \<Rightarrow> (Inl e, usage1, gemini_duration1, w1)
                      | Inr record \<Rightarrow>
                          (case make_meta env w1 ''SUCCESS'' (Some crawl_duration)
                                  (Some (now w1 - t0_total)) (Some (GEMINI_MODEL cfg))
                                  attempts usage1 gemini_duration1 of
                             Inl e \<Rightarrow> (Inl e, usage1, gemini_duration1, w1)
                           | Inr meta \<Rightarrow>
                               (Inr (record, meta), usage1, gemini_duration1, w1)))))"

text \<open>
  The \<^verbatim>\<open>while attempts < GEMINI_MAX_ATTEMPTS\<close> loop and the code after it. The
  variable \<^verbatim>\<open>last_error\<close> only feeds a message and is left out.
\<close>

function gemini_loop ::
  "collab \<Rightarrow> config \<Rightarrow> string \<Rightarrow> string \<Rightarrow> prompt \<Rightarrow> real \<Rightarrow> real \<Rightarrow> int \<Rightarrow>
   usage_metadata option \<Rightarrow> real option \<Rightarrow> world \<Rightarrow> (exn + pydict \<times> pydict) \<times> world" where
  "gemini_loop env cfg client url base_prompt crawl_duration t0_total attempts usage
       gemini_duration w =
     (if attempts < GEMINI_MAX_ATTEMPTS cfg then
        (case gemini_attempt env cfg client url base_prompt crawl_duration t0_total
                (attempts + 1) usage gemini_duration w of
           (Inr result, usage1, gemini_duration1, w1) \<Rightarrow> (Inr result, w1)
         | (Inl e, usage1, gemini_duration1, w1) \<Rightarrow>
             gemini_loop env cfg client url base_prompt crawl_duration t0_total
               (attempts + 1) usage1 gemini_duration1 w1)
      else
        (case make_meta env w ''GEMINI_CALL_FAILED'' (Some crawl_duration)
                (Some (now w - t0_total)) (Some (GEMINI_MODEL cfg)) attempts usage
                gemini_duration of
           Inl e \<Rightarrow> (Inl e, w)
         | Inr meta \<Rightarrow> (Inr (empty_record url, meta), w)))"
  by pat_completeness auto
termination
  by (relation "measure (\<lambda>(env, cfg, client, url, base_prompt, crawl_duration, t0_total,
        attempts, usage, gemini_duration, w). nat (GEMINI_MAX_ATTEMPTS cfg - attempts))") auto

declare gemini_loop.simps [simp del]

definition extract_with_gemini ::
  "collab \<Rightarrow> config \<Rightarrow> string \<Rightarrow> string \<Rightarrow> string \<Rightarrow> string \<Rightarrow> real \<Rightarrow> world \<Rightarrow>
   (exn + pydict \<times> pydict) \<times> world" where
  "extract_with_gemini env cfg client url page_text raw_html crawl_duration w =
     (let t0_total = now w;
          candidates = extract_phone_candidates_from_html raw_html;
          base_prompt = \<lparr>phone_candidates = candidates,
                         content = slice_to page_text (MAX_CONTENT_CHARS cfg)\<rparr>
      in gemini_loop env cfg client url base_prompt crawl_duration t0_total 0 None None w)"

section \<open>One URL (main.py, process_url)\<close>

definition process_url ::
  "collab \<Rightarrow> config \<Rightarrow> string \<Rightarrow> string \<Rightarrow> world \<Rightarrow> (exn + pydict) \<times> world" where
  "process_url env cfg client url w =
     (case fetch_page_text_and_html env url w of
        (Inl e, w1) \<Rightarrow>
          (case make_meta env w1 ''CRAWL_FAILED'' None None (Some (GEMINI_MODEL cfg)) 0 None None of
             Inl e' \<Rightarrow> (Inl e', w1)
           | Inr meta \<Rightarrow> (Inr (setitem ''meta'' (JObj meta) (empty_record url)), w1))
      | (Inr (page_text, raw_html, crawl_duration), w1) \<Rightarrow>
          (case extract_with_gemini env cfg client url page_text raw_html crawl_duration w1 of
             (Inl e', w2) \<Rightarrow> (Inl e', w2)
           | (Inr (record, meta), w2) \<Rightarrow> (Inr (setitem ''meta'' (JObj meta) record), w2)))"

section \<open>The run driver (main.py, main)\<close>

text \<open>\<^verbatim>\<open>os.getenv("GEMINI_API_KEY") or os.getenv("GOOGLE_API_KEY")\<close>\<close>

definition py_or :: "string option \<Rightarrow> string option \<Rightarrow> string option" where
  "py_or a b = (case a of None \<Rightarrow> b | Some s \<Rightarrow> if s = [] then b else Some s)"

text \<open>The client is represented by the key it was made with.\<close>

definition configure_gemini_client :: "os_env \<Rightarrow> exn + string" where
  "configure_gemini_client os =
     (let api_key = py_or (GEMINI_API_KEY os) (GOOGLE_API_KEY os)
      in case api_key of
           None \<Rightarrow> Inl RuntimeError
         | Some k \<Rightarrow> if k = [] then Inl RuntimeError else Inr k)"

text \<open>
  The list comprehension that reads \<^verbatim>\<open>urls.txt\<close>; \<open>kept_line\<close> is its condition
  \<^verbatim>\<open>line.strip() and not line.startswith("#")\<close>.
\<close>

definition kept_line :: "string \<Rightarrow> bool" where
  "kept_line line = (strip line \<noteq> [] \<and> \<not> startswith line ''#'')"

definition load_urls :: "string \<Rightarrow> string list" where
  "load_urls file_text = map strip (filter kept_line (splitlines file_text))"

text \<open>
  The \<^verbatim>\<open>for url in urls\<close> loop with its \<^verbatim>\<open>try\<close>/\<^verbatim>\<open>except Exception\<close>. The
  per-URL function is a parameter, so that the handler can be studied for
  any exception whatever; \<open>main\<close> passes \<open>process_url\<close>.
\<close>

fun run_urls ::
  "collab \<Rightarrow> config \<Rightarrow> (string \<Rightarrow> world \<Rightarrow> (exn + pydict) \<times> world) \<Rightarrow> string list \<Rightarrow>
   pydict list \<Rightarrow> world \<Rightarrow> (exn + pydict list) \<times> world" where
  "run_urls env cfg proc [] results w = (Inr results, w)"
| "run_urls env cfg proc (url # urls) results w =
     (case proc url w of
        (Inr record, w1) \<Rightarrow> run_urls env cfg proc urls (results @ [record]) w1
      | (Inl e, w1) \<Rightarrow>
          (case make_meta env w1 ''SYSTEM_ERROR'' None None (Some (GEMINI_MODEL cfg)) 0 None None of
             Inl e' \<Rightarrow> (Inl e', w1)
           | Inr meta \<Rightarrow>
               run_urls env cfg proc urls
                 (results @ [setitem ''meta'' (JObj meta) (empty_record url)]) w1))"

text \<open>
  \<open>main_with\<close> is \<^verbatim>\<open>main\<close> with the per-URL function as a parameter. Opening
  the browser session is taken to succeed. The write of the results comes
  after the loop and outside every handler: an exception it raises ends the
  run.
\<close>

definition main_with ::
  "(string \<Rightarrow> string \<Rightarrow> world \<Rightarrow> (exn + pydict) \<times> world) \<Rightarrow>
   collab \<Rightarrow> config \<Rightarrow> os_env \<Rightarrow> world \<Rightarrow> (exn + unit) \<times> world" where
  "main_with proc env cfg os w =
     (case urls_file os of
        None \<Rightarrow> (Inl FileNotFoundError, w)
      | Some file_text \<Rightarrow>
          (let urls = load_urls file_text in
           if urls = [] then (Inr (), w)
           else
             (case configure_gemini_client os of
                Inl e \<Rightarrow> (Inl e, w)
              | Inr client \<Rightarrow>
                  (case run_urls env cfg (proc client) urls [] w of
                     (Inl e, w1) \<Rightarrow> (Inl e, w1)
                   | (Inr results, w1) \<Rightarrow>
                       (let document = JArr (map JObj results) in
                        case write_text env document of
                          Written \<Rightarrow> (Inr (), w1\<lparr>output_file := Some (Document document)\<rparr>)
                        | Raised_before_open e \<Rightarrow> (Inl e, w1)
                        | Raised_after_open e \<Rightarrow> (Inl e, w1\<lparr>output_file := Some Truncated\<rparr>))))))"

definition main :: "collab \<Rightarrow> config \<Rightarrow> os_env \<Rightarrow> world \<Rightarrow> (exn + unit) \<times> world" where
  "main env cfg os w = main_with (process_url env cfg) env cfg os w"

section \<open>Reading results\<close>

text \<open>The value a call returns, \<open>None\<close> if it raised.\<close>

definition returned :: "(exn + 'a) \<times> world \<Rightarrow> 'a option" where
  "returned r = (case fst r of Inl e \<Rightarrow> None | Inr x \<Rightarrow> Some x)"

text \<open>\<^verbatim>\<open>record["meta"][k]\<close>, \<open>None\<close> where a subscript would fail.\<close>

definition meta_get :: "pydict \<Rightarrow> string \<Rightarrow> json option" where
  "meta_get r k = (case getitem r ''meta'' of Some (JObj m) \<Rightarrow> getitem m k | _ \<Rightarrow> None)"

definition returned_keys :: "(exn + pydict) \<times> world \<Rightarrow> string list option" where
  "returned_keys r = (case returned r of None \<Rightarrow> None | Some d \<Rightarrow> Some (keys d))"

definition returned_meta :: "(exn + pydict) \<times> world \<Rightarrow> string \<Rightarrow> json option" where
  "returned_meta r k = (case returned r of None \<Rightarrow> None | Some d \<Rightarrow> meta_get d k)"

text \<open>
  An attempt yields no record when call number \<open>n\<close> of the extraction
  collaborator raises, when its text does not decode, or when it decodes to a
  value that is no JSON object (then \<^verbatim>\<open>data.get\<close> raises).
\<close>

definition attempt_fails :: "collab \<Rightarrow> config \<Rightarrow> string \<Rightarrow> prompt \<Rightarrow> nat \<Rightarrow> bool" where
  "attempt_fails env cfg client base_prompt n =
     (case snd (generate_content env client (GEMINI_MODEL cfg) base_prompt n) of
        Inl e \<Rightarrow> True
      | Inr response \<Rightarrow>
          (case json_loads env (strip (or_empty (response_text response))) of
             Inl e \<Rightarrow> True
           | Inr data \<Rightarrow> (case data of JObj d \<Rightarrow> False | _ \<Rightarrow> True)))"

text \<open>
  A per-URL function that behaves like \<open>f\<close> except that any call may end in
  an exception instead: \<open>f\<close> with failures the model does not trace.
\<close>

definition may_raise ::
  "(string \<Rightarrow> world \<Rightarrow> (exn + pydict) \<times> world) \<Rightarrow>
   (string \<Rightarrow> world \<Rightarrow> (exn + pydict) \<times> world) \<Rightarrow> bool" where
  "may_raise proc f = (\<forall>u w. (\<exists>e. fst (proc u w) = Inl e) \<or> fst (proc u w) = fst (f u w))"

section \<open>A sample world\<close>

text \<open>
  Concrete collaborators for running the definitions: every crawl has the
  outcome \<open>crawl\<close>, every extraction call the outcome \<open>answer\<close>, every
  text decodes to \<open>decoded\<close>, and every document is written.
\<close>

definition sample_collab :: "exn + crawl_result \<Rightarrow> exn + gemini_response \<Rightarrow> exn + json \<Rightarrow> collab" where
  "sample_collab crawl answer decoded =
     \<lparr>arun = (\<lambda>url n. (3 / 2, crawl)),
      generate_content = (\<lambda>client model p n. (1 / 2, answer)),
      json_loads = (\<lambda>s. decoded),
      utcnow_isoformat = (\<lambda>t. ''2025-01-01T00:00:00''),
      write_text = (\<lambda>document. Written)\<rparr>"

definition sample_page :: crawl_result where
  "sample_page =
     \<lparr>success = True, error_message = None,
      html = Some ''<p>call 017-787 0260</p>'',
      cleaned_html = Some ''call 017-787 0260'',
      markdown = Some \<lparr>raw_markdown = Some ''Condo, call 017-787 0260'', fit_markdown = None\<rparr>\<rparr>"

definition sample_response :: gemini_response where
  "sample_response = \<lparr>response_usage_metadata = None, response_text = Some ''{}''\<rparr>"

definition sample_data :: json where
  "sample_data = JObj [(''url'', JStr ''http://elsewhere''), (''price'', JStr ''RM 500,000'')]"

definition sample_cfg :: "int \<Rightarrow> config" where
  "sample_cfg max_attempts =
     \<lparr>MAX_CONTENT_CHARS = 20000, GEMINI_MODEL = ''gemini-2.5-flash-lite'',
      GEMINI_MAX_ATTEMPTS = max_attempts\<rparr>"

definition sample_world :: world where
  "sample_world = \<lparr>now = 0, crawl_calls = 0, gemini_calls = 0, output_file = None\<rparr>"

text \<open>Four runs: everything works, the crawler is down, the page has no
  markdown, the extraction service is down.\<close>

definition all_up :: collab where
  "all_up = sample_collab (Inr sample_page) (Inr sample_response) (Inr sample_data)"

definition crawl_down :: collab where
  "crawl_down = sample_collab (Inl (CollaboratorError ''timeout'')) (Inr sample_response)
     (Inr sample_data)"

definition no_markdown :: collab where
  "no_markdown = sample_collab (Inr (sample_page\<lparr>markdown := None\<rparr>)) (Inr sample_response)
     (Inr sample_data)"

definition gemini_down :: collab where
  "gemini_down = sample_collab (Inr sample_page) (Inl (CollaboratorError ''quota'')) (Inr sample_data)"

text \<open>
  A run in which every page is crawled and every answer decodes, and the
  text of the results is refused once the output file is open, as Python
  refuses a lone surrogate that \<^verbatim>\<open>json.loads\<close> decoded from an answer.
\<close>

definition write_refused :: collab where
  "write_refused = all_up\<lparr>write_text := (\<lambda>document. Raised_after_open UnicodeEncodeError)\<rparr>"

text \<open>
  A URL file with two URLs, a blank line and a comment, a file with no URL at
  all, an environment that holds a key and one that holds none, and a per-URL
  function that raises on the second URL.
\<close>

definition two_urls :: string where
  "two_urls = ''http://a\<newline>\<newline>#c\<newline>  http://b ''"

definition no_urls :: string where
  "no_urls = ''\<newline># nothing here\<newline>   \<newline>''"

definition os_with_key :: "string \<Rightarrow> os_env" where
  "os_with_key file_text =
     \<lparr>urls_file = Some file_text, GEMINI_API_KEY = Some ''key'', GOOGLE_API_KEY = None\<rparr>"

definition os_without_key :: "string \<Rightarrow> os_env" where
  "os_without_key file_text =
     \<lparr>urls_file = Some file_text, GEMINI_API_KEY = None, GOOGLE_API_KEY = Some []\<rparr>"

definition raising_on_b :: "string \<Rightarrow> string \<Rightarrow> world \<Rightarrow> (exn + pydict) \<times> world" where
  "raising_on_b client url w =
     (if url = ''http://b'' then (Inl (CollaboratorError ''unexpected''), w)
      else process_url crawl_down (sample_cfg 2) client url w)"

section \<open>The status registry is total\<close>

lemma put_row_apply: "put_row a m k = (if k = cd_name a then Some a else m k)"
  unfolding put_row_def by simp

lemma fold_put_row_other:
  "k \<notin> cd_name ` set rows \<Longrightarrow> fold put_row rows m k = m k"
proof (induction rows arbitrary: m)
  case Nil
  then show ?case by simp
next
  case (Cons a rows)
  from Cons.prems have ne: "k \<noteq> cd_name a" and "k \<notin> cd_name ` set rows" by auto
  then have "fold put_row rows (put_row a m) k = put_row a m k"
    using Cons.IH [of "put_row a m"] by blast
  also have "put_row a m k = m k"
    using ne by (simp add: put_row_apply)
  finally show ?case by simp
qed

lemma fold_put_row_distinct:
  "distinct (map cd_name rows) \<Longrightarrow> r \<in> set rows \<Longrightarrow>
   fold put_row rows m (cd_name r) = Some r"
proof (induction rows arbitrary: m)
  case Nil
  then show ?case by simp
next
  case (Cons a rows)
  show ?case
  proof (cases "r = a")
    case True
    with Cons.prems have "cd_name a \<notin> cd_name ` set rows" by simp
    then have "fold put_row rows (put_row a m) (cd_name a) = put_row a m (cd_name a)"
      by (rule fold_put_row_other)
    also have "put_row a m (cd_name a) = Some a"
      by (simp add: put_row_apply)
    finally show ?thesis using True by simp
  next
    case False
    with Cons.prems have "distinct (map cd_name rows)" and "r \<in> set rows" by auto
    then show ?thesis using Cons.IH [of "put_row a m"] by simp
  qed
qed

lemma by_name_Some:
  "distinct (map cd_name rows) \<Longrightarrow> r \<in> set rows \<Longrightarrow> by_name rows (cd_name r) = Some r"
  by (simp add: by_name_def fold_put_row_distinct)

lemma by_name_None:
  "k \<notin> cd_name ` set rows \<Longrightarrow> by_name rows k = None"
  by (simp add: by_name_def fold_put_row_other)

lemma status_names_distinct: "distinct (map cd_name STATUS_DEFINITIONS)"
  by (simp add: STATUS_DEFINITIONS_def)


lemma unexpected_mem: "UNEXPECTED_ERROR_row \<in> set STATUS_DEFINITIONS"
  by (simp add: STATUS_DEFINITIONS_def UNEXPECTED_ERROR_row_def)

lemma unexpected_row:
  "STATUS_BY_NAME ''UNEXPECTED_ERROR'' = Some UNEXPECTED_ERROR_row"
proof -
  have "cd_name UNEXPECTED_ERROR_row = ''UNEXPECTED_ERROR''"
    by (simp add: UNEXPECTED_ERROR_row_def)
  with by_name_Some [OF status_names_distinct unexpected_mem] show ?thesis
    by (simp only: STATUS_BY_NAME_def)
qed

lemma status_row_of_hit:
  "r \<in> set STATUS_DEFINITIONS \<Longrightarrow> status_row_of (cd_name r) = Inr r"
proof -
  assume "r \<in> set STATUS_DEFINITIONS"
  then have "STATUS_BY_NAME (cd_name r) = Some r"
    unfolding STATUS_BY_NAME_def by (rule by_name_Some [OF status_names_distinct])
  then show ?thesis
    unfolding status_row_of_def by (simp add: unexpected_row)
qed

lemma status_row_of_miss:
  "name \<notin> cd_name ` set STATUS_DEFINITIONS \<Longrightarrow> status_row_of name = Inr UNEXPECTED_ERROR_row"
proof -
  assume "name \<notin> cd_name ` set STATUS_DEFINITIONS"
  then have "STATUS_BY_NAME name = None"
    unfolding STATUS_BY_NAME_def by (rule by_name_None)
  then show ?thesis
    unfolding status_row_of_def by (simp add: unexpected_row)
qed

lemma status_row_of_total: "\<exists>row. status_row_of name = Inr row \<and> row \<in> set STATUS_DEFINITIONS"
proof (cases "name \<in> cd_name ` set STATUS_DEFINITIONS")
  case True
  then obtain r where "r \<in> set STATUS_DEFINITIONS" "cd_name r = name" by blast
  with status_row_of_hit [of r] show ?thesis by auto
next
  case False
  with status_row_of_miss unexpected_mem show ?thesis by blast
qed

text \<open>
  Claim C6. For every string the lookup returns a row of the static table and
  never raises (the result is always \<open>Inr\<close>): a registered name gives the one
  row registered under that name, with its code and description, and every
  other name gives the \<^verbatim>\<open>UNEXPECTED_ERROR\<close> row.
\<close>

theorem status_lookup_total:
  "\<exists>row. status_row_of name = Inr row \<and> row \<in> set STATUS_DEFINITIONS \<and>
     (\<forall>r \<in> set STATUS_DEFINITIONS. cd_name r = name \<longrightarrow> row = r) \<and>
     (name \<notin> cd_name ` set STATUS_DEFINITIONS \<longrightarrow>
        row = \<lparr>cd_std = ''000999'', cd_name = ''UNEXPECTED_ERROR'',
          cd_desc = ''An unexpected, uncategorised error occurred that does not match other codes.''\<rparr>)"
proof (cases "name \<in> cd_name ` set STATUS_DEFINITIONS")
  case True
  then obtain r0 where r0: "r0 \<in> set STATUS_DEFINITIONS" "cd_name r0 = name" by blast
  have hit: "status_row_of name = Inr r0"
    using status_row_of_hit [OF r0(1)] r0(2) by simp
  have uniq: "r0 = r" if "r \<in> set STATUS_DEFINITIONS" "cd_name r = name" for r
  proof -
    have "status_row_of name = Inr r" using status_row_of_hit [OF that(1)] that(2) by simp
    with hit show ?thesis by simp
  qed
  from hit r0(1) uniq True show ?thesis by blast
next
  case False
  have "status_row_of name = Inr UNEXPECTED_ERROR_row" using False by (rule status_row_of_miss)
  with unexpected_mem False show ?thesis
    unfolding UNEXPECTED_ERROR_row_def by blast
qed

theorem status_lookup_total_witness:
  "(\<exists>row. status_row_of ''CRAWL_FAILED'' = Inr row \<and> cd_std row = ''000100'') \<and>
   ''NOT_A_STATUS'' \<notin> cd_name ` set STATUS_DEFINITIONS \<and>
   (\<exists>row. status_row_of ''NOT_A_STATUS'' = Inr row \<and> cd_std row = ''000999'')"
proof -
  have a: "\<lparr>cd_std = ''000100'', cd_name = ''CRAWL_FAILED'',
       cd_desc = ''Generic crawl failure (navigation, page load, or unknown browser error).''\<rparr>
      \<in> set STATUS_DEFINITIONS"
    by (simp add: STATUS_DEFINITIONS_def)
  have b: "''NOT_A_STATUS'' \<notin> cd_name ` set STATUS_DEFINITIONS"
    by (simp add: STATUS_DEFINITIONS_def)
  obtain row1 where r1: "status_row_of ''CRAWL_FAILED'' = Inr row1"
    and u1: "\<forall>r \<in> set STATUS_DEFINITIONS. cd_name r = ''CRAWL_FAILED'' \<longrightarrow> row1 = r"
    using status_lookup_total [of "''CRAWL_FAILED''"] by blast
  have "row1 = \<lparr>cd_std = ''000100'', cd_name = ''CRAWL_FAILED'',
       cd_desc = ''Generic crawl failure (navigation, page load, or unknown browser error).''\<rparr>"
    using u1 a by simp
  then have c1: "cd_std row1 = ''000100''" by simp
  obtain row2 where r2: "status_row_of ''NOT_A_STATUS'' = Inr row2"
    and u2: "''NOT_A_STATUS'' \<notin> cd_name ` set STATUS_DEFINITIONS \<longrightarrow>
        row2 = \<lparr>cd_std = ''000999'', cd_name = ''UNEXPECTED_ERROR'',
          cd_desc = ''An unexpected, uncategorised error occurred that does not match other codes.''\<rparr>"
    using status_lookup_total [of "''NOT_A_STATUS''"] by blast
  from u2 b have c2: "cd_std row2 = ''000999''" by simp
  from r1 c1 b r2 c2 show ?thesis by blast
qed

section \<open>Phone candidates: order, duplicates, no normalisation\<close>

lemma match_here_sound:
  "match_here pat prev s = Some rest \<Longrightarrow> \<exists>m. s = m @ rest \<and> m \<in> lang pat"
proof (induction pat prev s arbitrary: rest rule: match_here.induct)
  case (1 prev s)
  then show ?case by simp
next
  case (2 r prev s)
  then show ?case by (simp split: if_splits)
next
  case (3 a r prev)
  then show ?case by simp
next
  case (4 a r prev c cs)
  then show ?case by (fastforce split: if_splits)
next
  case (5 a r prev)
  then show ?case by simp
next
  case (6 a r prev c cs)
  show ?case
  proof (cases "atom_ok a c \<and> match_here r (Some c) cs \<noteq> None")
    case True
    then obtain rest' where m: "match_here r (Some c) cs = Some rest'" by auto
    with True "6.prems" have "rest' = rest" by simp
    with "6.IH"(1) [of rest] True m obtain w where "cs = w @ rest" "w \<in> lang r" by auto
    then have "c # cs = (c # w) @ rest \<and> c # w \<in> lang (Optional a # r)" using True by simp
    then show ?thesis by blast
  next
    case False
    with "6.prems" have m: "match_here r prev (c # cs) = Some rest"
      by (auto split: if_splits option.splits)
    have "\<exists>m. c # cs = m @ rest \<and> m \<in> lang r"
    proof (cases "atom_ok a c")
      case True
      with False have "match_here r (Some c) cs = None" by simp
      from "6.IH"(2) [OF True this m] show ?thesis .
    next
      case False
      from "6.IH"(3) [OF False m] show ?thesis .
    qed
    then show ?thesis by auto
  qed
next
  case (7 a lo hi r prev)
  then show ?case by (fastforce split: if_splits)
next
  case (8 a lo hi r prev c cs)
  show ?case
  proof (cases "0 < hi \<and> atom_ok a c \<and> match_here (Repeat a (lo - 1) (hi - 1) # r) (Some c) cs \<noteq> None")
    case True
    then obtain rest' where m: "match_here (Repeat a (lo - 1) (hi - 1) # r) (Some c) cs = Some rest'"
      by auto
    with True "8.prems" have "rest' = rest" by simp
    with "8.IH"(1) [of rest] True m obtain w where w: "cs = w @ rest" "w \<in> lang (Repeat a (lo - 1) (hi - 1) # r)"
      by auto
    then obtain ds v where dv: "w = ds @ v" "lo - 1 \<le> length ds" "length ds \<le> hi - 1"
      "\<forall>d \<in> set ds. atom_ok a d" "v \<in> lang r" by auto
    have "c # ds @ v \<in> lang (Repeat a lo hi # r)"
    proof -
      have "lo \<le> length (c # ds)" "length (c # ds) \<le> hi" "\<forall>d \<in> set (c # ds). atom_ok a d"
        using dv True by auto
      with dv(5) have "(c # ds) @ v \<in> lang (Repeat a lo hi # r)"
        unfolding lang.simps by blast
      then show ?thesis by simp
    qed
    with w dv show ?thesis by auto
  next
    case False
    with "8.prems" have lo: "lo = 0" and m: "match_here r prev (c # cs) = Some rest"
      by (auto split: if_splits option.splits)
    have "\<exists>m. c # cs = m @ rest \<and> m \<in> lang r"
    proof (cases "0 < hi \<and> atom_ok a c")
      case True
      with False have "match_here (Repeat a (lo - 1) (hi - 1) # r) (Some c) cs = None" by simp
      from "8.IH"(2) [OF True this lo m] show ?thesis .
    next
      case False
      from "8.IH"(3) [OF False lo m] show ?thesis .
    qed
    then obtain m where "c # cs = m @ rest" "m \<in> lang r" by blast
    then have "c # cs = ([] @ m) @ rest \<and> [] @ m \<in> lang (Repeat a lo hi # r)"
      unfolding lang.simps using lo by fastforce
    then show ?thesis by auto
  qed
qed

lemma lang_split:
  "w \<in> lang (it # r) \<Longrightarrow> \<exists>x w'. w = x @ w' \<and> w' \<in> lang r"
proof (cases it)
  case WordBoundary
  assume "w \<in> lang (it # r)"
  with WordBoundary have "w = [] @ w \<and> w \<in> lang r" by simp
  then show ?thesis by blast
next
  case (One a)
  assume "w \<in> lang (it # r)"
  with One obtain c w' where "w = [c] @ w'" "w' \<in> lang r" by auto
  then show ?thesis by blast
next
  case (Optional a)
  assume "w \<in> lang (it # r)"
  with Optional consider (a) c w' where "w = [c] @ w'" "w' \<in> lang r" | (b) "w = [] @ w" "w \<in> lang r"
    by auto
  then show ?thesis by cases blast+
next
  case (Repeat a lo hi)
  assume "w \<in> lang (it # r)"
  with Repeat show ?thesis by auto
qed

lemma lang_last_digit:
  "1 \<le> lo \<Longrightarrow> w \<in> lang (pre @ [Repeat Digit lo hi, WordBoundary]) \<Longrightarrow>
   w \<noteq> [] \<and> is_digit (last w)"
proof (induction pre arbitrary: w)
  case Nil
  then obtain cs where "w = cs" "lo \<le> length cs" "\<forall>c \<in> set cs. is_digit c" by auto
  with Nil.prems(1) have "cs \<noteq> []" by auto
  with \<open>w = cs\<close> \<open>\<forall>c \<in> set cs. is_digit c\<close> show ?case by simp
next
  case (Cons it pre)
  from Cons.prems(2) have "w \<in> lang (it # (pre @ [Repeat Digit lo hi, WordBoundary]))" by simp
  then obtain x w' where w: "w = x @ w'" "w' \<in> lang (pre @ [Repeat Digit lo hi, WordBoundary])"
    using lang_split by blast
  from Cons.IH [OF Cons.prems(1) w(2)] have "w' \<noteq> []" "is_digit (last w')" by auto
  with w(1) show ?case by simp
qed

lemma lang_first:
  "w \<in> lang (WordBoundary # One (Lit c) # r) \<Longrightarrow> w \<noteq> [] \<and> hd w = c"
  by auto

lemma digit_not_space: "is_digit c \<Longrightarrow> \<not> py_isspace c"
  by (auto simp: is_digit_def py_isspace_def)

lemma strip_id:
  assumes "w \<noteq> []" "\<not> py_isspace (hd w)" "\<not> py_isspace (last w)"
  shows "strip w = w"
proof -
  from assms(1,2) have 1: "dropWhile py_isspace w = w" by (cases w) auto
  from assms(1,3) have "\<not> py_isspace (hd (rev w))" by (simp add: hd_rev)
  moreover from assms(1) have "rev w \<noteq> []" by simp
  ultimately have 2: "dropWhile py_isspace (rev w) = rev w" by (cases "rev w") auto
  show ?thesis by (simp add: strip_def 1 2)
qed

lemma shape_strip:
  assumes "pat = WordBoundary # One (Lit c) # r"
    and "pat = pre @ [Repeat Digit lo hi, WordBoundary]"
    and "1 \<le> lo" and "\<not> py_isspace c" and "w \<in> lang pat"
  shows "strip w = w"
proof -
  from lang_first assms(1,5) have f: "w \<noteq> []" "hd w = c" by auto
  from lang_last_digit [OF assms(3)] assms(2,5) have l: "is_digit (last w)" by auto
  from f assms(4) l show ?thesis by (intro strip_id) (auto dest: digit_not_space)
qed

lemma zero_six_not_space: "\<not> py_isspace CHR ''0''" "\<not> py_isspace CHR ''6''"
  by (simp_all add: py_isspace_def)

lemma phone_lang_strip:
  assumes "pat \<in> set phone_patterns" "w \<in> lang pat"
  shows "strip w = w"
proof -
  from assms(1) consider
      (p1) "pat = phone_patterns ! 0" | (p2) "pat = phone_patterns ! 1"
    | (p3) "pat = phone_patterns ! 2" | (p4) "pat = phone_patterns ! 3"
    by (auto simp: phone_patterns_def)
  then show ?thesis
  proof cases
    case p1
    show ?thesis
      by (rule shape_strip [where c = "CHR ''0''" and lo = 4 and hi = 4 and
            pre = "[WordBoundary, One (Lit CHR ''0''), One (Lit CHR ''1''), One Digit,
                    Optional DashOrSpace, Repeat Digit 3 3, Optional DashOrSpace]", OF _ _ _ _ assms(2)])
         (simp_all add: p1 phone_patterns_def zero_six_not_space)
  next
    case p2
    show ?thesis
      by (rule shape_strip [where c = "CHR ''0''" and lo = 7 and hi = 8 and
            pre = "[WordBoundary, One (Lit CHR ''0''), One (Lit CHR ''1''), One Digit]",
            OF _ _ _ _ assms(2)])
         (simp_all add: p2 phone_patterns_def zero_six_not_space)
  next
    case p3
    show ?thesis
      by (rule shape_strip [where c = "CHR ''0''" and lo = 6 and hi = 8 and
            pre = "[WordBoundary, One (Lit CHR ''0''), Repeat Digit 1 2, One (Lit CHR ''-'')]",
            OF _ _ _ _ assms(2)])
         (simp_all add: p3 phone_patterns_def zero_six_not_space)
  next
    case p4
    show ?thesis
      by (rule shape_strip [where c = "CHR ''6''" and lo = 8 and hi = 11 and
            pre = "[WordBoundary, One (Lit CHR ''6'')]", OF _ _ _ _ assms(2)])
         (simp_all add: p4 phone_patterns_def zero_six_not_space)
  qed
qed

lemma match_here_take:
  assumes "match_here pat prev s = Some rest"
  shows "take (length s - length rest) s \<in> lang pat"
proof -
  from match_here_sound [OF assms] obtain m where "s = m @ rest" "m \<in> lang pat" by blast
  then show ?thesis by simp
qed

lemma finditer_matches:
  "pat \<in> set phone_patterns \<Longrightarrow> m \<in> set (finditer pat prev s) \<Longrightarrow> strip m = m"
proof (induction pat prev s rule: finditer.induct)
  case (1 pat prev s)
  show ?case
  proof (cases "match_here pat prev s")
    case None
    with "1.prems" show ?thesis
      using "1.IH"(1) [OF None]
      by (cases s) (auto simp: finditer.simps [of pat prev])
  next
    case (Some rest)
    have here: "strip (take (length s - length rest) s) = take (length s - length rest) s"
      using phone_lang_strip [OF "1.prems"(1) match_here_take [OF Some]] .
    show ?thesis
    proof (cases "length s - length rest = 0")
      case True
      with here have e: "strip [] = []" by simp
      from True Some "1.prems" "1.IH"(2) [OF Some True] e show ?thesis
        by (cases s) (auto simp: finditer.simps [of pat prev])
    next
      case False
      from False Some "1.prems" "1.IH"(3) [OF Some False] here show ?thesis
        by (auto simp: finditer.simps [of pat prev])
    qed
  qed
qed

lemma finditer_strip:
  "pat \<in> set phone_patterns \<Longrightarrow> map strip (finditer pat prev s) = finditer pat prev s"
  by (simp add: map_idI finditer_matches)

lemma remdups_dup_later:
  "x \<in> set zs \<Longrightarrow> remdups (ys @ x # zs) = remdups (ys @ zs)"
  by (induction ys) auto

lemma fold_add_candidate:
  "distinct acc \<Longrightarrow>
   fold add_candidate ms acc = rev (remdups (rev (acc @ map strip ms)))"
proof (induction ms arbitrary: acc)
  case Nil
  then show ?case by (simp add: distinct_remdups_id)
next
  case (Cons m ms)
  show ?case
  proof (cases "strip m \<in> set acc")
    case True
    then have "add_candidate m acc = acc" by (simp add: add_candidate_def)
    moreover have "remdups (rev (map strip ms) @ strip m # rev acc) = remdups (rev (map strip ms) @ rev acc)"
      using True by (intro remdups_dup_later) simp
    ultimately show ?thesis using Cons.IH [OF Cons.prems] by simp
  next
    case False
    then have a: "add_candidate m acc = acc @ [strip m]" by (simp add: add_candidate_def)
    from False Cons.prems have "distinct (acc @ [strip m])" by simp
    from Cons.IH [OF this] a show ?thesis by simp
  qed
qed

lemma fold_patterns:
  "distinct acc \<Longrightarrow>
   fold (\<lambda>pat candidates. fold add_candidate (f pat) candidates) pats acc =
     rev (remdups (rev (acc @ concat (map (\<lambda>pat. map strip (f pat)) pats))))"
proof (induction pats arbitrary: acc)
  case Nil
  then show ?case by (simp add: distinct_remdups_id)
next
  case (Cons p pats)
  let ?acc = "rev (remdups (rev (acc @ map strip (f p))))"
  have d: "distinct ?acc" by simp
  have "fold (\<lambda>pat candidates. fold add_candidate (f pat) candidates) (p # pats) acc =
        fold (\<lambda>pat candidates. fold add_candidate (f pat) candidates) pats ?acc"
    by (simp add: fold_add_candidate [OF Cons.prems])
  also have "\<dots> = rev (remdups (rev (?acc @ concat (map (\<lambda>pat. map strip (f pat)) pats))))"
    by (rule Cons.IH [OF d])
  also have "\<dots> = rev (remdups (rev (acc @ concat (map (\<lambda>pat. map strip (f pat)) (p # pats)))))"
  proof -
    have "remdups (xs @ remdups ys) = remdups (xs @ ys)" for xs ys :: "string list"
      by (induction xs) auto
    then show ?thesis by simp
  qed
  finally show ?case .
qed

text \<open>
  Claim C7. For every markup string the candidates are the matches of the
  four patterns taken pattern by pattern in the fixed order, each pattern's
  matches in left-to-right order (\<open>concat\<close> of the four \<open>finditer\<close> lists, not
  merged by position), with every later exact duplicate dropped
  (\<open>rev \<circ> remdups \<circ> rev\<close> keeps the first occurrence of each string), and the
  matched substrings themselves, unchanged: the \<^verbatim>\<open>strip()\<close> of the source never
  alters a match of these patterns.
\<close>

theorem phone_candidates_first_seen:
  "extract_phone_candidates_from_html raw_html =
     rev (remdups (rev (concat (map (\<lambda>pat. finditer pat None raw_html) phone_patterns))))"
proof -
  have eq: "map (\<lambda>pat. map strip (finditer pat None raw_html)) phone_patterns =
        map (\<lambda>pat. finditer pat None raw_html) phone_patterns"
    by (rule map_cong [OF refl]) (simp add: finditer_strip)
  have "extract_phone_candidates_from_html raw_html =
        rev (remdups (rev ([] @ concat (map (\<lambda>pat. map strip (finditer pat None raw_html)) phone_patterns))))"
    unfolding extract_phone_candidates_from_html_def
    by (rule fold_patterns) simp
  also have "\<dots> = rev (remdups (rev (concat (map (\<lambda>pat. finditer pat None raw_html) phone_patterns))))"
    by (simp only: eq append_Nil)
  finally show ?thesis .
qed


text \<open>
  Two runs of the extractor: a duplicate is dropped, and a match of the fourth
  pattern that stands first in the markup still comes after the match of the
  first pattern.
\<close>

lemma phone_candidates_examples:
  "extract_phone_candidates_from_html ''Call 017-787 0260 now, 017-787 0260'' = [''017-787 0260'']"
  "extract_phone_candidates_from_html ''wasap.my/60123456789 or 017-787 0260''
     = [''017-787 0260'', ''60123456789'']"
  by code_simp+

section \<open>Records and metadata\<close>

lemma getitem_setitem:
  "getitem (setitem k v d) k' = (if k' = k then Some v else getitem d k')"
  unfolding getitem_def by (induction d) auto

lemma keys_setitem:
  "keys (setitem k v d) = (if k \<in> set (keys d) then keys d else keys d @ [k])"
  unfolding keys_def by (induction d) auto

lemma empty_record_eq:
  "empty_record url = [(''url'', JStr url), (''listing_title'', JNull), (''project_name'', JNull),
     (''area'', JNull), (''state'', JNull), (''price'', JNull), (''sq_ft'', JNull),
     (''bedrooms'', JNull), (''bathrooms'', JNull), (''property_type'', JNull),
     (''carpark'', JNull), (''floor_range'', JNull), (''phone_number'', JNull),
     (''description'', JNull)]"
  by (simp add: empty_record_def FIELD_NAMES_def)

lemma keys_empty_record: "keys (empty_record url) = FIELD_NAMES"
  by (simp add: empty_record_eq FIELD_NAMES_def keys_def)

lemma getitem_empty_record_url: "getitem (empty_record url) ''url'' = Some (JStr url)"
  by (simp add: empty_record_eq getitem_def)

lemma getitem_empty_record_other:
  "k \<in> set FIELD_NAMES \<Longrightarrow> k \<noteq> ''url'' \<Longrightarrow> getitem (empty_record url) k = Some JNull"
  by (auto simp: empty_record_eq getitem_def FIELD_NAMES_def)

lemma meta_not_field: "''meta'' \<notin> set FIELD_NAMES"
  by (simp add: FIELD_NAMES_def)

lemma url_is_field: "''url'' \<in> set FIELD_NAMES"
  by (simp add: FIELD_NAMES_def)

lemma make_meta_total:
  "\<exists>row. status_row_of status_name = Inr row \<and>
     make_meta env w status_name cd td model attempts usage gd =
       Inr (asdict \<lparr>status_key = cd_name row, status_code = cd_std row, gemini_model = model,
             gemini_attempts = attempts,
             gemini_prompt_tokens = usage_get usage prompt_token_count,
             gemini_response_tokens = usage_get usage candidates_token_count,
             gemini_total_tokens = usage_get usage total_token_count,
             gemini_duration_sec = gd, crawl_duration_sec = cd, total_duration_sec = td,
             timestamp_utc = Some (utcnow_isoformat env (now w) @ ''Z'')\<rparr>)"
proof -
  from status_row_of_total [of status_name] obtain row where "status_row_of status_name = Inr row"
    by blast
  then show ?thesis by (simp add: make_meta_def)
qed

lemma status_row_of_known:
  "status_row_of ''SUCCESS'' = Inr \<lparr>cd_std = ''000000'', cd_name = ''SUCCESS'',
      cd_desc = ''Request completed successfully with a high-confidence extraction result.''\<rparr>"
  "status_row_of ''CRAWL_FAILED'' = Inr \<lparr>cd_std = ''000100'', cd_name = ''CRAWL_FAILED'',
      cd_desc = ''Generic crawl failure (navigation, page load, or unknown browser error).''\<rparr>"
  "status_row_of ''GEMINI_CALL_FAILED'' = Inr \<lparr>cd_std = ''000200'', cd_name = ''GEMINI_CALL_FAILED'',
      cd_desc = ''Generic Gemini API failure (network, service, or SDK-level error).''\<rparr>"
  "status_row_of ''SYSTEM_ERROR'' = Inr \<lparr>cd_std = ''000500'', cd_name = ''SYSTEM_ERROR'',
      cd_desc = ''Generic system/runtime error (unexpected exception in the pipeline).''\<rparr>"
proof -
  have mem: "\<lparr>cd_std = ''000000'', cd_name = ''SUCCESS'',
      cd_desc = ''Request completed successfully with a high-confidence extraction result.''\<rparr>
      \<in> set STATUS_DEFINITIONS"
    "\<lparr>cd_std = ''000100'', cd_name = ''CRAWL_FAILED'',
      cd_desc = ''Generic crawl failure (navigation, page load, or unknown browser error).''\<rparr>
      \<in> set STATUS_DEFINITIONS"
    "\<lparr>cd_std = ''000200'', cd_name = ''GEMINI_CALL_FAILED'',
      cd_desc = ''Generic Gemini API failure (network, service, or SDK-level error).''\<rparr>
      \<in> set STATUS_DEFINITIONS"
    "\<lparr>cd_std = ''000500'', cd_name = ''SYSTEM_ERROR'',
      cd_desc = ''Generic system/runtime error (unexpected exception in the pipeline).''\<rparr>
      \<in> set STATUS_DEFINITIONS"
    by (simp_all add: STATUS_DEFINITIONS_def)
  show "status_row_of ''SUCCESS'' = Inr \<lparr>cd_std = ''000000'', cd_name = ''SUCCESS'',
      cd_desc = ''Request completed successfully with a high-confidence extraction result.''\<rparr>"
    using status_row_of_hit [OF mem(1)] by simp
  show "status_row_of ''CRAWL_FAILED'' = Inr \<lparr>cd_std = ''000100'', cd_name = ''CRAWL_FAILED'',
      cd_desc = ''Generic crawl failure (navigation, page load, or unknown browser error).''\<rparr>"
    using status_row_of_hit [OF mem(2)] by simp
  show "status_row_of ''GEMINI_CALL_FAILED'' = Inr \<lparr>cd_std = ''000200'', cd_name = ''GEMINI_CALL_FAILED'',
      cd_desc = ''Generic Gemini API failure (network, service, or SDK-level error).''\<rparr>"
    using status_row_of_hit [OF mem(3)] by simp
  show "status_row_of ''SYSTEM_ERROR'' = Inr \<lparr>cd_std = ''000500'', cd_name = ''SYSTEM_ERROR'',
      cd_desc = ''Generic system/runtime error (unexpected exception in the pipeline).''\<rparr>"
    using status_row_of_hit [OF mem(4)] by simp
qed

lemma make_meta_known:
  assumes "status_name \<in> {''SUCCESS'', ''CRAWL_FAILED'', ''GEMINI_CALL_FAILED'', ''SYSTEM_ERROR''}"
  shows "\<exists>meta. make_meta env w status_name cd td model attempts usage gd = Inr meta \<and>
     keys meta = [''status_key'', ''status_code'', ''gemini_model'', ''gemini_attempts'',
        ''gemini_prompt_tokens'', ''gemini_response_tokens'', ''gemini_total_tokens'',
        ''gemini_duration_sec'', ''crawl_duration_sec'', ''total_duration_sec'', ''timestamp_utc''] \<and>
     getitem meta ''status_key'' = Some (JStr status_name) \<and>
     getitem meta ''gemini_attempts'' = Some (JInt attempts) \<and>
     getitem meta ''gemini_duration_sec'' = Some (json_float gd) \<and>
     getitem meta ''crawl_duration_sec'' = Some (json_float cd) \<and>
     getitem meta ''total_duration_sec'' = Some (json_float td)"
  using assms
  by (auto simp: make_meta_def status_row_of_known asdict_def keys_def getitem_def)

lemma fill_record_keys:
  "fill_record url data ks rcd = Inr r \<Longrightarrow> set ks \<subseteq> set (keys rcd) \<Longrightarrow>
   keys r = keys rcd"
proof (induction ks arbitrary: rcd)
  case Nil
  then show ?case by simp
next
  case (Cons k ks)
  show ?case
  proof (cases "k = ''url''")
    case True
    with Cons.prems have "fill_record url data ks (setitem k (JStr url) rcd) = Inr r" by simp
    moreover have "keys (setitem k (JStr url) rcd) = keys rcd"
      using Cons.prems(2) by (simp add: keys_setitem)
    ultimately show ?thesis using Cons.IH [of "setitem k (JStr url) rcd"] Cons.prems(2) by simp
  next
    case False
    with Cons.prems(1) obtain v where v: "data_get data k = Inr v"
      "fill_record url data ks (setitem k v rcd) = Inr r"
      by (auto split: sum.splits)
    moreover have "keys (setitem k v rcd) = keys rcd"
      using Cons.prems(2) by (simp add: keys_setitem)
    ultimately show ?thesis using Cons.IH [of "setitem k v rcd"] Cons.prems(2) by simp
  qed
qed

lemma fill_record_url:
  "fill_record url data ks rcd = Inr r \<Longrightarrow> getitem rcd ''url'' = Some (JStr url) \<Longrightarrow>
   getitem r ''url'' = Some (JStr url)"
proof (induction ks arbitrary: rcd)
  case Nil
  then show ?case by simp
next
  case (Cons k ks)
  show ?case
  proof (cases "k = ''url''")
    case True
    with Cons.prems have "fill_record url data ks (setitem k (JStr url) rcd) = Inr r" by simp
    moreover have "getitem (setitem k (JStr url) rcd) ''url'' = Some (JStr url)"
      using True by (simp add: getitem_setitem)
    ultimately show ?thesis using Cons.IH by blast
  next
    case False
    with Cons.prems(1) obtain v where v: "data_get data k = Inr v"
      "fill_record url data ks (setitem k v rcd) = Inr r"
      by (auto split: sum.splits)
    moreover have "getitem (setitem k v rcd) ''url'' = Some (JStr url)"
      using False Cons.prems(2) by (simp add: getitem_setitem)
    ultimately show ?thesis using Cons.IH by blast
  qed
qed

lemma fill_record_object:
  "\<exists>r. fill_record url (JObj d) ks rcd = Inr r"
  by (induction ks arbitrary: rcd) (simp_all add: data_get_def)

lemma data_get_not_object:
  "(case data of JObj d \<Rightarrow> False | _ \<Rightarrow> True) \<Longrightarrow> data_get data k = Inl AttributeError"
  by (cases data) (simp_all add: data_get_def)

lemma fill_record_not_object:
  assumes "case data of JObj d \<Rightarrow> False | _ \<Rightarrow> True" and "\<exists>k \<in> set ks. k \<noteq> ''url''"
  shows "\<exists>e. fill_record url data ks rcd = Inl e"
  using assms(2)
proof (induction ks arbitrary: rcd)
  case Nil
  then show ?case by simp
next
  case (Cons k ks)
  show ?case
  proof (cases "k = ''url''")
    case True
    with Cons.prems have "\<exists>k \<in> set ks. k \<noteq> ''url''" by auto
    from Cons.IH [OF this] True show ?thesis by simp
  next
    case False
    then show ?thesis by (simp add: data_get_not_object [OF assms(1)])
  qed
qed

lemma fill_record_fails_iff:
  "(\<exists>e. fill_record url data FIELD_NAMES (empty_record url) = Inl e) \<longleftrightarrow>
   (case data of JObj d \<Rightarrow> False | _ \<Rightarrow> True)"
proof (cases "case data of JObj d \<Rightarrow> False | _ \<Rightarrow> True")
  case True
  have "\<exists>k \<in> set FIELD_NAMES. k \<noteq> ''url''" by (simp add: FIELD_NAMES_def)
  from fill_record_not_object [OF True this] True show ?thesis by simp
next
  case False
  then obtain d where d: "data = JObj d" by (cases data) simp_all
  from fill_record_object [of url d FIELD_NAMES "empty_record url"]
  obtain r where "fill_record url data FIELD_NAMES (empty_record url) = Inr r"
    unfolding d by blast
  with False show ?thesis by simp
qed

section \<open>The retry loop\<close>

lemma gemini_attempt_cases:
  fixes env cfg client url p cd t0 a us gd w
  defines "A \<equiv> gemini_attempt env cfg client url p cd t0 a us gd w"
  shows "(\<exists>e us1 gd1 w1. A = (Inl e, us1, gd1, w1) \<and>
            attempt_fails env cfg client p (gemini_calls w) \<and>
            gemini_calls w1 = Suc (gemini_calls w) \<and> crawl_calls w1 = crawl_calls w \<and>
            output_file w1 = output_file w) \<or>
         (\<exists>rcd meta us1 gd1 w1. A = (Inr (rcd, meta), us1, gd1, w1) \<and>
            \<not> attempt_fails env cfg client p (gemini_calls w) \<and>
            keys rcd = FIELD_NAMES \<and> getitem rcd ''url'' = Some (JStr url) \<and>
            getitem meta ''status_key'' = Some (JStr ''SUCCESS'') \<and>
            getitem meta ''gemini_attempts'' = Some (JInt a) \<and>
            gemini_calls w1 = Suc (gemini_calls w) \<and> crawl_calls w1 = crawl_calls w \<and>
            output_file w1 = output_file w)"
proof -
  obtain elapsed outcome where
    g: "generate_content env client (GEMINI_MODEL cfg) p (gemini_calls w) = (elapsed, outcome)"
    by (cases "generate_content env client (GEMINI_MODEL cfg) p (gemini_calls w)")
  let ?w1 = "w\<lparr>now := now w + elapsed, gemini_calls := Suc (gemini_calls w)\<rparr>"
  show ?thesis
  proof (cases outcome)
    case (Inl e)
    then have "A = (Inl e, us, gd, ?w1)" by (simp add: A_def gemini_attempt_def g)
    moreover have "attempt_fails env cfg client p (gemini_calls w)"
      using Inl by (simp add: attempt_fails_def g)
    ultimately show ?thesis by simp
  next
    case (Inr resp)
    let ?gd1 = "Some (now ?w1 - now w)"
    let ?us1 = "case response_usage_metadata resp of Some um \<Rightarrow> Some um | None \<Rightarrow> us"
    let ?raw = "strip (or_empty (response_text resp))"
    show ?thesis
    proof (cases "json_loads env ?raw")
      case (Inl e)
      then have "A = (Inl e, ?us1, ?gd1, ?w1)"
        using Inr by (simp add: A_def gemini_attempt_def g)
      moreover have "attempt_fails env cfg client p (gemini_calls w)"
        using Inl Inr by (simp add: attempt_fails_def g)
      ultimately show ?thesis by simp
    next
      case data: (Inr data)
      show ?thesis
      proof (cases "case data of JObj d \<Rightarrow> False | _ \<Rightarrow> True")
        case True
        with fill_record_fails_iff [of url data] obtain e where
          e: "fill_record url data FIELD_NAMES (empty_record url) = Inl e" by blast
        then have "A = (Inl e, ?us1, ?gd1, ?w1)"
          using Inr data by (simp add: A_def gemini_attempt_def g)
        moreover have "attempt_fails env cfg client p (gemini_calls w)"
          using True Inr data by (simp add: attempt_fails_def g)
        ultimately show ?thesis by simp
      next
        case False
        with fill_record_fails_iff [of url data] obtain r where
          r: "fill_record url data FIELD_NAMES (empty_record url) = Inr r"
          by (cases "fill_record url data FIELD_NAMES (empty_record url)") auto
        have k: "keys r = FIELD_NAMES"
          using fill_record_keys [OF r] by (simp add: keys_empty_record)
        have u: "getitem r ''url'' = Some (JStr url)"
          using fill_record_url [OF r] by (simp add: getitem_empty_record_url)
        obtain meta where m: "make_meta env ?w1 ''SUCCESS'' (Some cd) (Some (now ?w1 - t0))
            (Some (GEMINI_MODEL cfg)) a ?us1 ?gd1 = Inr meta"
          and ms: "getitem meta ''status_key'' = Some (JStr ''SUCCESS'')"
          and ma: "getitem meta ''gemini_attempts'' = Some (JInt a)"
          using make_meta_known [of "''SUCCESS''" env ?w1 "Some cd" "Some (now ?w1 - t0)"
              "Some (GEMINI_MODEL cfg)" a ?us1 ?gd1] by auto
        have "A = (Inr (r, meta), ?us1, ?gd1, ?w1)"
          using Inr data r m by (simp add: A_def gemini_attempt_def g)
        moreover have "\<not> attempt_fails env cfg client p (gemini_calls w)"
          using False Inr data by (simp add: attempt_fails_def g)
        ultimately show ?thesis using k u ms ma by simp
      qed
    qed
  qed
qed

lemma gemini_loop_result:
  "\<exists>rcd meta w'. gemini_loop env cfg client url p cd t0 a us gd w = (Inr (rcd, meta), w') \<and>
     keys rcd = FIELD_NAMES \<and> getitem rcd ''url'' = Some (JStr url) \<and>
     crawl_calls w' = crawl_calls w \<and> output_file w' = output_file w \<and>
     (getitem meta ''status_key'' = Some (JStr ''SUCCESS'') \<or>
      getitem meta ''status_key'' = Some (JStr ''GEMINI_CALL_FAILED'') \<and> rcd = empty_record url)"
proof (induction env cfg client url p cd t0 a us gd w rule: gemini_loop.induct)
  case (1 env cfg client url p cd t0 a us gd w)
  show ?case
  proof (cases "a < GEMINI_MAX_ATTEMPTS cfg")
    case True
    from gemini_attempt_cases [of env cfg client url p cd t0 "a + 1" us gd w]
    consider (fail) e us1 gd1 w1 where
        "gemini_attempt env cfg client url p cd t0 (a + 1) us gd w = (Inl e, us1, gd1, w1)"
        "crawl_calls w1 = crawl_calls w" "output_file w1 = output_file w"
      | (ok) rcd meta us1 gd1 w1 where
        "gemini_attempt env cfg client url p cd t0 (a + 1) us gd w = (Inr (rcd, meta), us1, gd1, w1)"
        "keys rcd = FIELD_NAMES" "getitem rcd ''url'' = Some (JStr url)"
        "getitem meta ''status_key'' = Some (JStr ''SUCCESS'')"
        "crawl_calls w1 = crawl_calls w" "output_file w1 = output_file w"
      by blast
    then show ?thesis
    proof cases
      case fail
      have step: "gemini_loop env cfg client url p cd t0 a us gd w =
                  gemini_loop env cfg client url p cd t0 (a + 1) us1 gd1 w1"
        by (subst gemini_loop.simps) (simp add: True fail(1))
      from "1.IH" [OF True fail(1) [symmetric] refl refl refl] fail(2,3) show ?thesis
        unfolding step by auto
    next
      case ok
      have "gemini_loop env cfg client url p cd t0 a us gd w = (Inr (rcd, meta), w1)"
        by (subst gemini_loop.simps) (simp add: True ok(1))
      with ok show ?thesis by simp
    qed
  next
    case False
    obtain meta where m: "make_meta env w ''GEMINI_CALL_FAILED'' (Some cd) (Some (now w - t0))
        (Some (GEMINI_MODEL cfg)) a us gd = Inr meta"
      and ms: "getitem meta ''status_key'' = Some (JStr ''GEMINI_CALL_FAILED'')"
      using make_meta_known [of "''GEMINI_CALL_FAILED''" env w "Some cd" "Some (now w - t0)"
          "Some (GEMINI_MODEL cfg)" a us gd] by auto
    have "gemini_loop env cfg client url p cd t0 a us gd w = (Inr (empty_record url, meta), w)"
      by (subst gemini_loop.simps) (simp add: False m)
    with ms show ?thesis by (simp add: keys_empty_record getitem_empty_record_url)
  qed
qed

lemma gemini_loop_exhaust:
  "\<forall>i < nat (GEMINI_MAX_ATTEMPTS cfg - a). attempt_fails env cfg client p (gemini_calls w + i) \<Longrightarrow>
   \<exists>meta w'. gemini_loop env cfg client url p cd t0 a us gd w = (Inr (empty_record url, meta), w') \<and>
     getitem meta ''status_key'' = Some (JStr ''GEMINI_CALL_FAILED'') \<and>
     getitem meta ''gemini_attempts'' = Some (JInt (max a (GEMINI_MAX_ATTEMPTS cfg))) \<and>
     getitem meta ''crawl_duration_sec'' = Some (JFloat cd) \<and>
     gemini_calls w' = gemini_calls w + nat (GEMINI_MAX_ATTEMPTS cfg - a) \<and>
     crawl_calls w' = crawl_calls w \<and> output_file w' = output_file w"
proof (induction env cfg client url p cd t0 a us gd w rule: gemini_loop.induct)
  case (1 env cfg client url p cd t0 a us gd w)
  show ?case
  proof (cases "a < GEMINI_MAX_ATTEMPTS cfg")
    case True
    then have "0 < nat (GEMINI_MAX_ATTEMPTS cfg - a)" by simp
    with "1.prems" have "attempt_fails env cfg client p (gemini_calls w)" by force
    with gemini_attempt_cases [of env cfg client url p cd t0 "a + 1" us gd w]
    obtain e us1 gd1 w1 where
      A: "gemini_attempt env cfg client url p cd t0 (a + 1) us gd w = (Inl e, us1, gd1, w1)"
      and c: "gemini_calls w1 = Suc (gemini_calls w)" "crawl_calls w1 = crawl_calls w"
        "output_file w1 = output_file w"
      by blast
    have step: "gemini_loop env cfg client url p cd t0 a us gd w =
                gemini_loop env cfg client url p cd t0 (a + 1) us1 gd1 w1"
      by (subst gemini_loop.simps) (simp add: True A)
    have rest: "\<forall>i < nat (GEMINI_MAX_ATTEMPTS cfg - (a + 1)).
                  attempt_fails env cfg client p (gemini_calls w1 + i)"
    proof (intro allI impI)
      fix i assume "i < nat (GEMINI_MAX_ATTEMPTS cfg - (a + 1))"
      then have "Suc i < nat (GEMINI_MAX_ATTEMPTS cfg - a)" by linarith
      with "1.prems" have "attempt_fails env cfg client p (gemini_calls w + Suc i)" by blast
      then show "attempt_fails env cfg client p (gemini_calls w1 + i)" by (simp add: c(1))
    qed
    have n: "Suc (nat (GEMINI_MAX_ATTEMPTS cfg - (a + 1))) = nat (GEMINI_MAX_ATTEMPTS cfg - a)"
      using True by linarith
    have mx: "max (a + 1) (GEMINI_MAX_ATTEMPTS cfg) = max a (GEMINI_MAX_ATTEMPTS cfg)"
      using True by linarith
    from "1.IH" [OF True A [symmetric] refl refl refl rest] c n mx show ?thesis
      unfolding step by auto
  next
    case False
    obtain meta where m: "make_meta env w ''GEMINI_CALL_FAILED'' (Some cd) (Some (now w - t0))
        (Some (GEMINI_MODEL cfg)) a us gd = Inr meta"
      and ms: "getitem meta ''status_key'' = Some (JStr ''GEMINI_CALL_FAILED'')"
        "getitem meta ''gemini_attempts'' = Some (JInt a)"
        "getitem meta ''crawl_duration_sec'' = Some (json_float (Some cd))"
      using make_meta_known [of "''GEMINI_CALL_FAILED''" env w "Some cd" "Some (now w - t0)"
          "Some (GEMINI_MODEL cfg)" a us gd] by auto
    have "gemini_loop env cfg client url p cd t0 a us gd w = (Inr (empty_record url, meta), w)"
      by (subst gemini_loop.simps) (simp add: False m)
    moreover have "max a (GEMINI_MAX_ATTEMPTS cfg) = a" using False by simp
    moreover have "nat (GEMINI_MAX_ATTEMPTS cfg - a) = 0" using False by simp
    ultimately show ?thesis using ms by (simp add: json_float_def)
  qed
qed

section \<open>Fetching and the per-URL pipeline\<close>

lemma fetch_blank:
  "strip url = [] \<Longrightarrow> fetch_page_text_and_html env url w = (Inl ValueError, w)"
  by (simp add: fetch_page_text_and_html_def)

lemma fetch_raise:
  "strip url \<noteq> [] \<Longrightarrow> arun env (strip url) (crawl_calls w) = (elapsed, Inl e) \<Longrightarrow>
   fetch_page_text_and_html env url w =
     (Inl e, w\<lparr>now := now w + elapsed, crawl_calls := Suc (crawl_calls w)\<rparr>)"
  by (simp add: fetch_page_text_and_html_def)

lemma fetch_unsuccessful:
  "strip url \<noteq> [] \<Longrightarrow> arun env (strip url) (crawl_calls w) = (elapsed, Inr res) \<Longrightarrow>
   \<not> success res \<Longrightarrow>
   fetch_page_text_and_html env url w =
     (Inl RuntimeError, w\<lparr>now := now w + elapsed, crawl_calls := Suc (crawl_calls w)\<rparr>)"
  by (simp add: fetch_page_text_and_html_def)

lemma fetch_ok:
  "strip url \<noteq> [] \<Longrightarrow> arun env (strip url) (crawl_calls w) = (elapsed, Inr res) \<Longrightarrow>
   success res \<Longrightarrow>
   fetch_page_text_and_html env url w =
     (Inr (let raw_md = or_empty (case markdown res of None \<Rightarrow> Some [] | Some md \<Rightarrow> raw_markdown md);
               cleaned = or_empty (cleaned_html res);
               raw_html = or_empty (html res)
           in if raw_md \<noteq> [] then raw_md else if cleaned \<noteq> [] then cleaned else raw_html,
           or_empty (html res), elapsed),
      w\<lparr>now := now w + elapsed, crawl_calls := Suc (crawl_calls w)\<rparr>)"
  by (simp add: fetch_page_text_and_html_def Let_def)

lemma fetch_world:
  "fetch_page_text_and_html env url w = (res, w1) \<Longrightarrow>
   gemini_calls w1 = gemini_calls w \<and> output_file w1 = output_file w"
  by (cases "arun env (strip url) (crawl_calls w)")
     (auto simp: fetch_page_text_and_html_def Let_def split: if_splits sum.splits)


lemma keys_with_meta:
  "keys rcd = FIELD_NAMES \<Longrightarrow> keys (setitem ''meta'' v rcd) = FIELD_NAMES @ [''meta'']"
  using meta_not_field by (simp add: keys_setitem)

lemma getitem_with_meta:
  "k \<noteq> ''meta'' \<Longrightarrow> getitem (setitem ''meta'' v rcd) k = getitem rcd k"
  "getitem (setitem ''meta'' v rcd) ''meta'' = Some v"
  by (simp_all add: getitem_setitem)

lemma meta_get_with_meta: "meta_get (setitem ''meta'' (JObj m) rcd) k = getitem m k"
  by (simp add: meta_get_def getitem_setitem)

lemma process_url_crawl_failed:
  assumes "fetch_page_text_and_html env url w = (Inl e, w1)"
  shows "\<exists>meta. process_url env cfg client url w =
            (Inr (setitem ''meta'' (JObj meta) (empty_record url)), w1) \<and>
          make_meta env w1 ''CRAWL_FAILED'' None None (Some (GEMINI_MODEL cfg)) 0 None None = Inr meta \<and>
          getitem meta ''status_key'' = Some (JStr ''CRAWL_FAILED'') \<and>
          getitem meta ''gemini_attempts'' = Some (JInt 0) \<and>
          getitem meta ''gemini_duration_sec'' = Some JNull \<and>
          getitem meta ''crawl_duration_sec'' = Some JNull \<and>
          getitem meta ''total_duration_sec'' = Some JNull"
proof -
  obtain meta where m: "make_meta env w1 ''CRAWL_FAILED'' None None (Some (GEMINI_MODEL cfg)) 0
        None None = Inr meta"
    and ms: "getitem meta ''status_key'' = Some (JStr ''CRAWL_FAILED'')"
      "getitem meta ''gemini_attempts'' = Some (JInt 0)"
      "getitem meta ''gemini_duration_sec'' = Some (json_float None)"
      "getitem meta ''crawl_duration_sec'' = Some (json_float None)"
      "getitem meta ''total_duration_sec'' = Some (json_float None)"
    using make_meta_known [of "''CRAWL_FAILED''" env w1 None None "Some (GEMINI_MODEL cfg)" 0
        None None] by auto
  have "process_url env cfg client url w =
          (Inr (setitem ''meta'' (JObj meta) (empty_record url)), w1)"
    by (simp add: process_url_def assms m)
  with m ms show ?thesis by (simp add: json_float_def)
qed

lemma process_url_extract:
  assumes "fetch_page_text_and_html env url w = (Inr (page_text, raw_html, cd), w1)"
  shows "process_url env cfg client url w =
           (case extract_with_gemini env cfg client url page_text raw_html cd w1 of
              (Inl e', w2) \<Rightarrow> (Inl e', w2)
            | (Inr (rcd, meta), w2) \<Rightarrow> (Inr (setitem ''meta'' (JObj meta) rcd), w2))"
  by (simp add: process_url_def assms)

lemma process_url_total:
  "\<exists>r w'. process_url env cfg client url w = (Inr r, w') \<and>
     keys r = FIELD_NAMES @ [''meta''] \<and> getitem r ''url'' = Some (JStr url) \<and>
     output_file w' = output_file w"
proof (cases "fetch_page_text_and_html env url w")
  case (Pair res w1)
  note f = fetch_world [OF Pair]
  show ?thesis
  proof (cases res)
    case (Inl e)
    from process_url_crawl_failed [OF Pair [unfolded Inl], of cfg client] f show ?thesis
      by (auto simp: keys_with_meta keys_empty_record getitem_with_meta getitem_empty_record_url)
  next
    case (Inr t)
    obtain page_text raw_html cd where t: "t = (page_text, raw_html, cd)" by (cases t)
    let ?p = "\<lparr>phone_candidates = extract_phone_candidates_from_html raw_html,
               content = slice_to page_text (MAX_CONTENT_CHARS cfg)\<rparr>"
    from gemini_loop_result [of env cfg client url ?p cd "now w1" 0 None None w1]
    obtain rcd meta w2 where
      g: "gemini_loop env cfg client url ?p cd (now w1) 0 None None w1 = (Inr (rcd, meta), w2)"
      and k: "keys rcd = FIELD_NAMES" "getitem rcd ''url'' = Some (JStr url)"
        "output_file w2 = output_file w1"
      by blast
    have "process_url env cfg client url w = (Inr (setitem ''meta'' (JObj meta) rcd), w2)"
      using Pair Inr t g by (simp add: process_url_def extract_with_gemini_def)
    with k f show ?thesis
      by (simp add: keys_with_meta getitem_with_meta)
  qed
qed

lemma fill_record_values:
  "fill_record url (JObj d) ks rcd = Inr r \<Longrightarrow>
   getitem r k =
     (if k \<in> set ks
      then (if k = ''url'' then Some (JStr url)
            else Some (case map_of d k of Some v \<Rightarrow> v | None \<Rightarrow> JNull))
      else getitem rcd k)"
proof (induction ks arbitrary: rcd)
  case Nil
  then show ?case by simp
next
  case (Cons k0 ks)
  show ?case
  proof (cases "k0 = ''url''")
    case True
    with Cons.prems have "fill_record url (JObj d) ks (setitem k0 (JStr url) rcd) = Inr r" by simp
    from Cons.IH [OF this] True show ?thesis by (simp add: getitem_setitem)
  next
    case False
    let ?v = "case map_of d k0 of Some v \<Rightarrow> v | None \<Rightarrow> JNull"
    from False Cons.prems have "fill_record url (JObj d) ks (setitem k0 ?v rcd) = Inr r"
      by (simp add: data_get_def)
    from Cons.IH [OF this] False show ?thesis by (simp add: getitem_setitem)
  qed
qed

lemma extract_no_attempts:
  assumes "GEMINI_MAX_ATTEMPTS cfg \<le> 0"
  shows "\<exists>meta. extract_with_gemini env cfg client url page_text raw_html cd w =
            (Inr (empty_record url, meta), w) \<and>
          getitem meta ''status_key'' = Some (JStr ''GEMINI_CALL_FAILED'') \<and>
          getitem meta ''gemini_attempts'' = Some (JInt 0)"
proof -
  obtain meta where m: "make_meta env w ''GEMINI_CALL_FAILED'' (Some cd) (Some (now w - now w))
        (Some (GEMINI_MODEL cfg)) 0 None None = Inr meta"
    and ms: "getitem meta ''status_key'' = Some (JStr ''GEMINI_CALL_FAILED'')"
      "getitem meta ''gemini_attempts'' = Some (JInt 0)"
    using make_meta_known [of "''GEMINI_CALL_FAILED''" env w "Some cd" "Some (now w - now w)"
        "Some (GEMINI_MODEL cfg)" 0 None None] by auto
  have "extract_with_gemini env cfg client url page_text raw_html cd w =
          (Inr (empty_record url, meta), w)"
    unfolding extract_with_gemini_def Let_def
    by (subst gemini_loop.simps) (use assms m in simp)
  with ms show ?thesis by simp
qed

lemma extract_exhausted:
  assumes "\<forall>i < nat (GEMINI_MAX_ATTEMPTS cfg).
             attempt_fails env cfg client
               \<lparr>phone_candidates = extract_phone_candidates_from_html raw_html,
                content = slice_to page_text (MAX_CONTENT_CHARS cfg)\<rparr> (gemini_calls w + i)"
  shows "\<exists>meta w'. extract_with_gemini env cfg client url page_text raw_html cd w =
            (Inr (empty_record url, meta), w') \<and>
          getitem meta ''status_key'' = Some (JStr ''GEMINI_CALL_FAILED'') \<and>
          getitem meta ''gemini_attempts'' = Some (JInt (max 0 (GEMINI_MAX_ATTEMPTS cfg))) \<and>
          gemini_calls w' = gemini_calls w + nat (GEMINI_MAX_ATTEMPTS cfg)"
proof -
  let ?p = "\<lparr>phone_candidates = extract_phone_candidates_from_html raw_html,
             content = slice_to page_text (MAX_CONTENT_CHARS cfg)\<rparr>"
  from assms have "\<forall>i < nat (GEMINI_MAX_ATTEMPTS cfg - 0).
      attempt_fails env cfg client ?p (gemini_calls w + i)" by simp
  from gemini_loop_exhaust [OF this, of url cd "now w" None None] show ?thesis
    by (auto simp: extract_with_gemini_def Let_def)
qed

lemma process_url_exhausted:
  assumes "fetch_page_text_and_html env url w = (Inr (page_text, raw_html, cd), w1)"
    and "\<forall>i < nat (GEMINI_MAX_ATTEMPTS cfg).
             attempt_fails env cfg client
               \<lparr>phone_candidates = extract_phone_candidates_from_html raw_html,
                content = slice_to page_text (MAX_CONTENT_CHARS cfg)\<rparr> (gemini_calls w1 + i)"
  shows "\<exists>meta w2. process_url env cfg client url w =
            (Inr (setitem ''meta'' (JObj meta) (empty_record url)), w2) \<and>
          getitem meta ''status_key'' = Some (JStr ''GEMINI_CALL_FAILED'') \<and>
          getitem meta ''gemini_attempts'' = Some (JInt (max 0 (GEMINI_MAX_ATTEMPTS cfg))) \<and>
          gemini_calls w2 = gemini_calls w1 + nat (GEMINI_MAX_ATTEMPTS cfg)"
proof -
  from extract_exhausted [OF assms(2), of url cd] obtain meta w2 where
    x: "extract_with_gemini env cfg client url page_text raw_html cd w1 =
            (Inr (empty_record url, meta), w2)"
    and m: "getitem meta ''status_key'' = Some (JStr ''GEMINI_CALL_FAILED'')"
    "getitem meta ''gemini_attempts'' = Some (JInt (max 0 (GEMINI_MAX_ATTEMPTS cfg)))"
    "gemini_calls w2 = gemini_calls w1 + nat (GEMINI_MAX_ATTEMPTS cfg)"
    by blast
  have "process_url env cfg client url w =
          (Inr (setitem ''meta'' (JObj meta) (empty_record url)), w2)"
    by (simp add: process_url_extract [OF assms(1)] x)
  with m show ?thesis by blast
qed

lemma url_only_record:
  "getitem (setitem ''meta'' v (empty_record url)) ''url'' = Some (JStr url)"
  "k \<in> set FIELD_NAMES \<Longrightarrow> k \<noteq> ''url'' \<Longrightarrow>
     getitem (setitem ''meta'' v (empty_record url)) k = Some JNull"
  "keys (setitem ''meta'' v (empty_record url)) = FIELD_NAMES @ [''meta'']"
proof -
  show "getitem (setitem ''meta'' v (empty_record url)) ''url'' = Some (JStr url)"
    by (simp add: getitem_with_meta getitem_empty_record_url)
  show "keys (setitem ''meta'' v (empty_record url)) = FIELD_NAMES @ [''meta'']"
    by (simp add: keys_with_meta keys_empty_record)
  assume k: "k \<in> set FIELD_NAMES" "k \<noteq> ''url''"
  with meta_not_field have "k \<noteq> ''meta''" by auto
  with k show "getitem (setitem ''meta'' v (empty_record url)) k = Some JNull"
    by (simp add: getitem_with_meta getitem_empty_record_other)
qed

section \<open>Claims about one URL\<close>

lemma sample_collab_simps:
  "arun (sample_collab crawl answer decoded) u n = (3 / 2, crawl)"
  "generate_content (sample_collab crawl answer decoded) client model p n = (1 / 2, answer)"
  "json_loads (sample_collab crawl answer decoded) s = decoded"
  by (simp_all add: sample_collab_def)

lemma strip_sample_url: "strip ''http://a'' = ''http://a''" "strip ''http://b'' = ''http://b''"
  by (simp_all add: strip_def py_isspace_def)

text \<open>
  Claim C8. When the crawl succeeds, the text handed on to the extraction is
  the structured extracted text (the raw markdown) if it is non-empty,
  otherwise the cleaned markup if that is non-empty, otherwise the raw
  markup; \<open>process_url\<close> passes exactly this text to \<open>extract_with_gemini\<close>.
\<close>

theorem fetch_fallback_chain:
  assumes "strip url \<noteq> []"
    and "arun env (strip url) (crawl_calls w) = (elapsed, Inr res)"
    and "success res"
    and "structured = or_empty (case markdown res of None \<Rightarrow> Some [] | Some md \<Rightarrow> raw_markdown md)"
    and "cleaned = or_empty (cleaned_html res)"
    and "raw = or_empty (html res)"
    and "chosen = (if structured \<noteq> [] then structured else if cleaned \<noteq> [] then cleaned else raw)"
  shows "\<exists>w1. fetch_page_text_and_html env url w = (Inr (chosen, raw, elapsed), w1) \<and>
           process_url env cfg client url w =
             (case extract_with_gemini env cfg client url chosen raw elapsed w1 of
                (Inl e', w2) \<Rightarrow> (Inl e', w2)
              | (Inr (rcd, meta), w2) \<Rightarrow> (Inr (setitem ''meta'' (JObj meta) rcd), w2))"
proof -
  let ?w1 = "w\<lparr>now := now w + elapsed, crawl_calls := Suc (crawl_calls w)\<rparr>"
  have f: "fetch_page_text_and_html env url w = (Inr (chosen, raw, elapsed), ?w1)"
    using fetch_ok [OF assms(1-3)] assms(4-7) by (simp add: Let_def)
  from f process_url_extract [OF f] show ?thesis by blast
qed

theorem fetch_fallback_chain_witness:
  "strip ''http://a'' \<noteq> [] \<and>
   arun no_markdown (strip ''http://a'')
     (crawl_calls sample_world) = (3 / 2, Inr (sample_page\<lparr>markdown := None\<rparr>)) \<and>
   success (sample_page\<lparr>markdown := None\<rparr>) \<and>
   (\<exists>w1. fetch_page_text_and_html no_markdown
            ''http://a'' sample_world
          = (Inr (''call 017-787 0260'', ''<p>call 017-787 0260</p>'', 3 / 2), w1))"
proof -
  have 1: "strip ''http://a'' \<noteq> []" by (simp add: strip_sample_url)
  have 2: "arun no_markdown (strip ''http://a'')
     (crawl_calls sample_world) = (3 / 2, Inr (sample_page\<lparr>markdown := None\<rparr>))"
    by (simp add: no_markdown_def sample_collab_simps)
  have 3: "success (sample_page\<lparr>markdown := None\<rparr>)" by (simp add: sample_page_def)
  have 4: "[] = or_empty (case markdown (sample_page\<lparr>markdown := None\<rparr>) of
                            None \<Rightarrow> Some [] | Some md \<Rightarrow> raw_markdown md)"
    by (simp add: or_empty_def)
  have 5: "''call 017-787 0260'' = or_empty (cleaned_html (sample_page\<lparr>markdown := None\<rparr>))"
    by (simp add: or_empty_def sample_page_def)
  have 6: "''<p>call 017-787 0260</p>'' = or_empty (html (sample_page\<lparr>markdown := None\<rparr>))"
    by (simp add: or_empty_def sample_page_def)
  have 7: "''call 017-787 0260'' =
      (if ([]::string) \<noteq> [] then [] else if ''call 017-787 0260'' \<noteq> [] then ''call 017-787 0260''
       else ''<p>call 017-787 0260</p>'')"
    by simp
  from fetch_fallback_chain [OF 1 2 3 4 5 6 7] 1 2 3 show ?thesis by blast
qed



text \<open>
  Claim C5. On every path the record's url is the input URL: \<open>process_url\<close>
  always returns a record and its url is the input; filling a record from any
  decoded response, whatever url entry it has or lacks, leaves the input
  URL; and the url-only record of the failure handlers carries it too.
\<close>

theorem record_url_is_input:
  "(\<exists>r w'. process_url env cfg client url w = (Inr r, w') \<and> getitem r ''url'' = Some (JStr url)) \<and>
   (\<forall>data r. fill_record url data FIELD_NAMES (empty_record url) = Inr r \<longrightarrow>
      getitem r ''url'' = Some (JStr url)) \<and>
   getitem (setitem ''meta'' v (empty_record url)) ''url'' = Some (JStr url)"
proof -
  from process_url_total [of env cfg client url w]
  have 1: "\<exists>r w'. process_url env cfg client url w = (Inr r, w') \<and> getitem r ''url'' = Some (JStr url)"
    by blast
  have 2: "getitem r ''url'' = Some (JStr url)"
    if "fill_record url data FIELD_NAMES (empty_record url) = Inr r" for data r
    using fill_record_url [OF that] by (simp add: getitem_empty_record_url)
  from 1 2 show ?thesis by (simp add: url_only_record)
qed

theorem record_url_is_input_witness:
  "\<exists>r. fill_record ''http://a'' sample_data FIELD_NAMES (empty_record ''http://a'') = Inr r \<and>
     getitem r ''url'' = Some (JStr ''http://a'') \<and>
     data_get sample_data ''url'' = Inr (JStr ''http://elsewhere'')"
proof -
  from fill_record_object [of "''http://a''" _ FIELD_NAMES "empty_record ''http://a''"]
  obtain r where r: "fill_record ''http://a'' sample_data FIELD_NAMES (empty_record ''http://a'') = Inr r"
    unfolding sample_data_def by blast
  with record_url_is_input [of all_up "sample_cfg 2" "''key''" "''http://a''" sample_world JNull]
  have "getitem r ''url'' = Some (JStr ''http://a'')" by blast
  moreover have "data_get sample_data ''url'' = Inr (JStr ''http://elsewhere'')"
    by (simp add: data_get_def sample_data_def)
  ultimately show ?thesis using r by blast
qed

text \<open>
  Claim C2, as stated, fails: the record the pipeline returns for a URL whose
  crawl failed has one key more than \<^verbatim>\<open>FIELD_NAMES\<close>, the key \<^verbatim>\<open>meta\<close> under
  which \<open>process_url\<close> stores the metadata.
\<close>

theorem record_keys_counterexample:
  "returned_keys (process_url crawl_down (sample_cfg 2) ''key'' ''http://a'' sample_world)
     = Some (FIELD_NAMES @ [''meta'']) \<and>
   returned_keys (process_url crawl_down (sample_cfg 2) ''key'' ''http://a'' sample_world)
     \<noteq> Some FIELD_NAMES \<and>
   set (FIELD_NAMES @ [''meta'']) \<noteq> set FIELD_NAMES"
proof -
  from process_url_total [of crawl_down "sample_cfg 2" "''key''" "''http://a''" sample_world]
  have "returned_keys (process_url crawl_down (sample_cfg 2) ''key'' ''http://a'' sample_world)
     = Some (FIELD_NAMES @ [''meta''])"
    by (auto simp: returned_keys_def returned_def)
  moreover have "set (FIELD_NAMES @ [''meta'']) \<noteq> set FIELD_NAMES"
    using meta_not_field by auto
  ultimately show ?thesis by auto
qed

text \<open>
  Claim C2, amended. Every record the pipeline returns, on any path, has
  exactly the keys of \<^verbatim>\<open>FIELD_NAMES\<close>, in that order, followed by the reserved
  key \<^verbatim>\<open>meta\<close>; so has the url-only record of the system-error handler. Before
  the metadata is attached the keys are exactly \<^verbatim>\<open>FIELD_NAMES\<close>: for the empty
  record and for the record the extraction returns. A field the decoded
  response does not give is present with the value null.
\<close>

theorem record_keys_with_meta:
  "(\<exists>r w'. process_url env cfg client url w = (Inr r, w') \<and> keys r = FIELD_NAMES @ [''meta'']) \<and>
   keys (setitem ''meta'' v (empty_record url)) = FIELD_NAMES @ [''meta''] \<and>
   keys (empty_record url) = FIELD_NAMES \<and>
   (\<exists>rcd meta w'. extract_with_gemini env cfg client url page_text raw_html cd w
        = (Inr (rcd, meta), w') \<and> keys rcd = FIELD_NAMES) \<and>
   (\<exists>r. fill_record url (JObj d) FIELD_NAMES (empty_record url) = Inr r \<and>
      keys r = FIELD_NAMES \<and>
      (\<forall>k \<in> set FIELD_NAMES. k \<noteq> ''url'' \<longrightarrow>
         getitem r k = Some (case map_of d k of Some x \<Rightarrow> x | None \<Rightarrow> JNull)))"
proof -
  from process_url_total [of env cfg client url w]
  have 1: "\<exists>r w'. process_url env cfg client url w = (Inr r, w') \<and> keys r = FIELD_NAMES @ [''meta'']"
    by blast
  let ?p = "\<lparr>phone_candidates = extract_phone_candidates_from_html raw_html,
             content = slice_to page_text (MAX_CONTENT_CHARS cfg)\<rparr>"
  from gemini_loop_result [of env cfg client url ?p cd "now w" 0 None None w]
  have 2: "\<exists>rcd meta w'. extract_with_gemini env cfg client url page_text raw_html cd w
        = (Inr (rcd, meta), w') \<and> keys rcd = FIELD_NAMES"
    unfolding extract_with_gemini_def Let_def by blast
  from fill_record_object [of url d FIELD_NAMES "empty_record url"]
  obtain r where r: "fill_record url (JObj d) FIELD_NAMES (empty_record url) = Inr r" by blast
  have "keys r = FIELD_NAMES"
    using fill_record_keys [OF r] by (simp add: keys_empty_record)
  moreover have "\<forall>k \<in> set FIELD_NAMES. k \<noteq> ''url'' \<longrightarrow>
         getitem r k = Some (case map_of d k of Some x \<Rightarrow> x | None \<Rightarrow> JNull)"
    using fill_record_values [OF r] by simp
  ultimately have 3: "\<exists>r. fill_record url (JObj d) FIELD_NAMES (empty_record url) = Inr r \<and>
      keys r = FIELD_NAMES \<and>
      (\<forall>k \<in> set FIELD_NAMES. k \<noteq> ''url'' \<longrightarrow>
         getitem r k = Some (case map_of d k of Some x \<Rightarrow> x | None \<Rightarrow> JNull))"
    using r by blast
  from 1 2 3 show ?thesis by (simp add: url_only_record keys_empty_record)
qed

theorem record_keys_with_meta_witness:
  "\<exists>r. fill_record ''http://a'' (JObj [(''price'', JStr ''RM 1'')]) FIELD_NAMES
          (empty_record ''http://a'') = Inr r \<and>
     ''area'' \<in> set FIELD_NAMES \<and> ''price'' \<in> set FIELD_NAMES \<and>
     getitem r ''area'' = Some JNull \<and> getitem r ''price'' = Some (JStr ''RM 1'')"
proof -
  from record_keys_with_meta [of all_up "sample_cfg 2" "''key''" "''http://a''" sample_world
      JNull "[]" "[]" 0 "[(''price'', JStr ''RM 1'')]"]
  obtain r where r: "fill_record ''http://a'' (JObj [(''price'', JStr ''RM 1'')]) FIELD_NAMES
          (empty_record ''http://a'') = Inr r"
    and v: "\<forall>k \<in> set FIELD_NAMES. k \<noteq> ''url'' \<longrightarrow>
         getitem r k = Some (case map_of [(''price'', JStr ''RM 1'')] k of
                               Some x \<Rightarrow> x | None \<Rightarrow> JNull)"
    by blast
  have m: "''area'' \<in> set FIELD_NAMES" "''price'' \<in> set FIELD_NAMES"
    by (simp_all add: FIELD_NAMES_def)
  from v m have "getitem r ''area'' = Some JNull" "getitem r ''price'' = Some (JStr ''RM 1'')"
    by auto
  with r m show ?thesis by blast
qed

lemma sample_fetch:
  "fetch_page_text_and_html gemini_down ''http://a'' sample_world =
     (Inr (''Condo, call 017-787 0260'', ''<p>call 017-787 0260</p>'', 3 / 2),
      sample_world\<lparr>now := now sample_world + 3 / 2,
                   crawl_calls := Suc (crawl_calls sample_world)\<rparr>)"
proof -
  have 1: "strip ''http://a'' \<noteq> []" by (simp add: strip_sample_url)
  have 2: "arun gemini_down (strip ''http://a'') (crawl_calls sample_world)
             = (3 / 2, Inr sample_page)"
    by (simp add: gemini_down_def sample_collab_simps)
  have 3: "success sample_page" by (simp add: sample_page_def)
  from fetch_ok [OF 1 2 3] show ?thesis
    by (simp add: sample_page_def or_empty_def)
qed

lemma gemini_down_fails: "attempt_fails gemini_down cfg client p n"
  by (simp add: attempt_fails_def gemini_down_def sample_collab_simps)

text \<open>
  Claim C4, as stated, fails for a negative maximum: with
  \<^verbatim>\<open>GEMINI_MAX_ATTEMPTS = -1\<close> the loop body never runs, the record is the
  \<^verbatim>\<open>GEMINI_CALL_FAILED\<close> one, and the recorded attempt count is 0, not -1.
\<close>

theorem exhausted_attempts_counterexample:
  "GEMINI_MAX_ATTEMPTS (sample_cfg (- 1)) = - 1 \<and>
   returned_meta (process_url gemini_down (sample_cfg (- 1)) ''key'' ''http://a'' sample_world)
     ''status_key'' = Some (JStr ''GEMINI_CALL_FAILED'') \<and>
   returned_meta (process_url gemini_down (sample_cfg (- 1)) ''key'' ''http://a'' sample_world)
     ''gemini_attempts'' = Some (JInt 0)"
proof -
  have "\<forall>i < nat (GEMINI_MAX_ATTEMPTS (sample_cfg (- 1))).
          attempt_fails gemini_down (sample_cfg (- 1)) ''key''
            \<lparr>phone_candidates = extract_phone_candidates_from_html ''<p>call 017-787 0260</p>'',
             content = slice_to ''Condo, call 017-787 0260'' (MAX_CONTENT_CHARS (sample_cfg (- 1)))\<rparr>
            (gemini_calls (sample_world\<lparr>now := now sample_world + 3 / 2,
                   crawl_calls := Suc (crawl_calls sample_world)\<rparr>) + i)"
    by (simp add: gemini_down_fails)
  from process_url_exhausted [OF sample_fetch this]
  obtain meta w2 where
    "process_url gemini_down (sample_cfg (- 1)) ''key'' ''http://a'' sample_world =
       (Inr (setitem ''meta'' (JObj meta) (empty_record ''http://a'')), w2)"
    "getitem meta ''status_key'' = Some (JStr ''GEMINI_CALL_FAILED'')"
    "getitem meta ''gemini_attempts'' = Some (JInt (max 0 (GEMINI_MAX_ATTEMPTS (sample_cfg (- 1)))))"
    by blast
  then show ?thesis
    by (simp add: returned_meta_def returned_def meta_get_with_meta sample_cfg_def)
qed

text \<open>
  Claim C4, amended. Suppose the crawl of a URL succeeded, the configured
  maximum attempt count is not negative, and every one of that many attempts
  fails (the extraction collaborator raises, or its response does not decode
  to a JSON object). Then the emitted record has status
  \<^verbatim>\<open>GEMINI_CALL_FAILED\<close>, its url is the input and every other declared field
  is null, so nothing of a failed attempt is kept, and the recorded attempt
  count equals the configured maximum, which is also the number of calls made.
\<close>

theorem exhausted_attempts_record:
  assumes "fetch_page_text_and_html env url w = (Inr (page_text, raw_html, cd), w1)"
    and "0 \<le> GEMINI_MAX_ATTEMPTS cfg"
    and "\<forall>i < nat (GEMINI_MAX_ATTEMPTS cfg).
           attempt_fails env cfg client
             \<lparr>phone_candidates = extract_phone_candidates_from_html raw_html,
              content = slice_to page_text (MAX_CONTENT_CHARS cfg)\<rparr> (gemini_calls w1 + i)"
  shows "\<exists>r w2. process_url env cfg client url w = (Inr r, w2) \<and>
           meta_get r ''status_key'' = Some (JStr ''GEMINI_CALL_FAILED'') \<and>
           meta_get r ''gemini_attempts'' = Some (JInt (GEMINI_MAX_ATTEMPTS cfg)) \<and>
           getitem r ''url'' = Some (JStr url) \<and>
           (\<forall>k \<in> set FIELD_NAMES. k \<noteq> ''url'' \<longrightarrow> getitem r k = Some JNull) \<and>
           gemini_calls w2 = gemini_calls w1 + nat (GEMINI_MAX_ATTEMPTS cfg)"
proof -
  from process_url_exhausted [OF assms(1,3)] obtain meta w2 where
    p: "process_url env cfg client url w =
          (Inr (setitem ''meta'' (JObj meta) (empty_record url)), w2)"
    and m: "getitem meta ''status_key'' = Some (JStr ''GEMINI_CALL_FAILED'')"
      "getitem meta ''gemini_attempts'' = Some (JInt (max 0 (GEMINI_MAX_ATTEMPTS cfg)))"
      "gemini_calls w2 = gemini_calls w1 + nat (GEMINI_MAX_ATTEMPTS cfg)"
    by blast
  let ?r = "setitem ''meta'' (JObj meta) (empty_record url)"
  have "\<forall>k \<in> set FIELD_NAMES. k \<noteq> ''url'' \<longrightarrow> getitem ?r k = Some JNull"
    by (simp add: url_only_record)
  moreover have "max 0 (GEMINI_MAX_ATTEMPTS cfg) = GEMINI_MAX_ATTEMPTS cfg"
    using assms(2) by simp
  ultimately show ?thesis
    using p m by (simp add: meta_get_with_meta url_only_record)
qed

theorem exhausted_attempts_record_witness:
  "0 \<le> GEMINI_MAX_ATTEMPTS (sample_cfg 2) \<and>
   attempt_fails gemini_down (sample_cfg 2) ''key''
     \<lparr>phone_candidates = extract_phone_candidates_from_html ''<p>call 017-787 0260</p>'',
      content = slice_to ''Condo, call 017-787 0260'' (MAX_CONTENT_CHARS (sample_cfg 2))\<rparr> 0 \<and>
   (\<exists>r w2. process_url gemini_down (sample_cfg 2) ''key'' ''http://a'' sample_world = (Inr r, w2) \<and>
      meta_get r ''status_key'' = Some (JStr ''GEMINI_CALL_FAILED'') \<and>
      meta_get r ''gemini_attempts'' = Some (JInt 2) \<and>
      gemini_calls w2 = 2)"
proof -
  have 2: "0 \<le> GEMINI_MAX_ATTEMPTS (sample_cfg 2)" by (simp add: sample_cfg_def)
  have 3: "\<forall>i < nat (GEMINI_MAX_ATTEMPTS (sample_cfg 2)).
          attempt_fails gemini_down (sample_cfg 2) ''key''
            \<lparr>phone_candidates = extract_phone_candidates_from_html ''<p>call 017-787 0260</p>'',
             content = slice_to ''Condo, call 017-787 0260'' (MAX_CONTENT_CHARS (sample_cfg 2))\<rparr>
            (gemini_calls (sample_world\<lparr>now := now sample_world + 3 / 2,
                   crawl_calls := Suc (crawl_calls sample_world)\<rparr>) + i)"
    by (simp add: gemini_down_fails)
  from exhausted_attempts_record [OF sample_fetch 2 3]
  obtain r w2 where
    "process_url gemini_down (sample_cfg 2) ''key'' ''http://a'' sample_world = (Inr r, w2)"
    "meta_get r ''status_key'' = Some (JStr ''GEMINI_CALL_FAILED'')"
    "meta_get r ''gemini_attempts'' = Some (JInt (GEMINI_MAX_ATTEMPTS (sample_cfg 2)))"
    "gemini_calls w2 = gemini_calls (sample_world\<lparr>now := now sample_world + 3 / 2,
                   crawl_calls := Suc (crawl_calls sample_world)\<rparr>)
        + nat (GEMINI_MAX_ATTEMPTS (sample_cfg 2))"
    by blast
  then have "process_url gemini_down (sample_cfg 2) ''key'' ''http://a'' sample_world = (Inr r, w2) \<and>
      meta_get r ''status_key'' = Some (JStr ''GEMINI_CALL_FAILED'') \<and>
      meta_get r ''gemini_attempts'' = Some (JInt 2) \<and>
      gemini_calls w2 = 2"
    by (simp add: sample_cfg_def sample_world_def)
  with 2 gemini_down_fails show ?thesis by blast
qed

text \<open>
  Claim C9. With a maximum attempt count of zero or less the extraction stage
  returns at once, in the world it was called in, so the extraction
  collaborator is called zero times: the record is url-only, the status is
  \<^verbatim>\<open>GEMINI_CALL_FAILED\<close> and the recorded attempt count is 0. The guarantee that
  the count equals the configured maximum on exhaustion holds under the
  precondition that the maximum is at least 1, and without a precondition it
  is false: for a negative maximum the count is 0 and differs from it.
\<close>

theorem no_attempts_when_max_not_positive:
  "(GEMINI_MAX_ATTEMPTS cfg \<le> 0 \<longrightarrow>
      (\<exists>meta. extract_with_gemini env cfg client url page_text raw_html cd w =
                 (Inr (empty_record url, meta), w) \<and>
         getitem meta ''status_key'' = Some (JStr ''GEMINI_CALL_FAILED'') \<and>
         getitem meta ''gemini_attempts'' = Some (JInt 0) \<and>
         (GEMINI_MAX_ATTEMPTS cfg < 0 \<longrightarrow>
            getitem meta ''gemini_attempts'' \<noteq> Some (JInt (GEMINI_MAX_ATTEMPTS cfg))))) \<and>
   getitem (empty_record url) ''url'' = Some (JStr url) \<and>
   (\<forall>k \<in> set FIELD_NAMES. k \<noteq> ''url'' \<longrightarrow> getitem (empty_record url) k = Some JNull) \<and>
   (1 \<le> GEMINI_MAX_ATTEMPTS cfg \<and>
    (\<forall>i < nat (GEMINI_MAX_ATTEMPTS cfg).
       attempt_fails env cfg client
         \<lparr>phone_candidates = extract_phone_candidates_from_html raw_html,
          content = slice_to page_text (MAX_CONTENT_CHARS cfg)\<rparr> (gemini_calls w + i)) \<longrightarrow>
      (\<exists>meta w'. extract_with_gemini env cfg client url page_text raw_html cd w =
                 (Inr (empty_record url, meta), w') \<and>
         getitem meta ''status_key'' = Some (JStr ''GEMINI_CALL_FAILED'') \<and>
         getitem meta ''gemini_attempts'' = Some (JInt (GEMINI_MAX_ATTEMPTS cfg))))"
proof -
  have 1: "\<exists>meta. extract_with_gemini env cfg client url page_text raw_html cd w =
                 (Inr (empty_record url, meta), w) \<and>
         getitem meta ''status_key'' = Some (JStr ''GEMINI_CALL_FAILED'') \<and>
         getitem meta ''gemini_attempts'' = Some (JInt 0) \<and>
         (GEMINI_MAX_ATTEMPTS cfg < 0 \<longrightarrow>
            getitem meta ''gemini_attempts'' \<noteq> Some (JInt (GEMINI_MAX_ATTEMPTS cfg)))"
    if "GEMINI_MAX_ATTEMPTS cfg \<le> 0"
    using extract_no_attempts [OF that, of env client url page_text raw_html cd w] by auto
  have 2: "\<exists>meta w'. extract_with_gemini env cfg client url page_text raw_html cd w =
                 (Inr (empty_record url, meta), w') \<and>
         getitem meta ''status_key'' = Some (JStr ''GEMINI_CALL_FAILED'') \<and>
         getitem meta ''gemini_attempts'' = Some (JInt (GEMINI_MAX_ATTEMPTS cfg))"
    if "1 \<le> GEMINI_MAX_ATTEMPTS cfg"
      and "\<forall>i < nat (GEMINI_MAX_ATTEMPTS cfg).
       attempt_fails env cfg client
         \<lparr>phone_candidates = extract_phone_candidates_from_html raw_html,
          content = slice_to page_text (MAX_CONTENT_CHARS cfg)\<rparr> (gemini_calls w + i)"
  proof -
    have "max 0 (GEMINI_MAX_ATTEMPTS cfg) = GEMINI_MAX_ATTEMPTS cfg" using that(1) by simp
    with extract_exhausted [OF that(2), of url cd] show ?thesis by auto
  qed
  have 3: "\<forall>k \<in> set FIELD_NAMES. k \<noteq> ''url'' \<longrightarrow> getitem (empty_record url) k = Some JNull"
    by (simp add: getitem_empty_record_other)
  from 1 2 3 show ?thesis by (simp add: getitem_empty_record_url)
qed

theorem no_attempts_when_max_not_positive_witness:
  "GEMINI_MAX_ATTEMPTS (sample_cfg 0) \<le> 0 \<and>
   (\<exists>meta. extract_with_gemini all_up (sample_cfg 0) ''key'' ''http://a'' ''text'' ''html'' 1
              sample_world = (Inr (empty_record ''http://a'', meta), sample_world) \<and>
      getitem meta ''gemini_attempts'' = Some (JInt 0)) \<and>
   GEMINI_MAX_ATTEMPTS (sample_cfg (- 3)) < 0 \<and>
   (\<exists>meta. extract_with_gemini all_up (sample_cfg (- 3)) ''key'' ''http://a'' ''text'' ''html'' 1
              sample_world = (Inr (empty_record ''http://a'', meta), sample_world) \<and>
      getitem meta ''gemini_attempts'' \<noteq> Some (JInt (- 3))) \<and>
   1 \<le> GEMINI_MAX_ATTEMPTS (sample_cfg 2) \<and>
   (\<exists>meta w'. extract_with_gemini gemini_down (sample_cfg 2) ''key'' ''http://a'' ''text'' ''html'' 1
              sample_world = (Inr (empty_record ''http://a'', meta), w') \<and>
      getitem meta ''gemini_attempts'' = Some (JInt 2))"
proof -
  have a: "GEMINI_MAX_ATTEMPTS (sample_cfg 0) \<le> 0" "GEMINI_MAX_ATTEMPTS (sample_cfg (- 3)) < 0"
    "GEMINI_MAX_ATTEMPTS (sample_cfg (- 3)) \<le> 0" "1 \<le> GEMINI_MAX_ATTEMPTS (sample_cfg 2)"
    "GEMINI_MAX_ATTEMPTS (sample_cfg 2) = 2" "GEMINI_MAX_ATTEMPTS (sample_cfg (- 3)) = - 3"
    by (simp_all add: sample_cfg_def)
  from no_attempts_when_max_not_positive [of "sample_cfg 0" all_up "''key''" "''http://a''"
      "''text''" "''html''" 1 sample_world] a(1)
  have 1: "\<exists>meta. extract_with_gemini all_up (sample_cfg 0) ''key'' ''http://a'' ''text'' ''html'' 1
              sample_world = (Inr (empty_record ''http://a'', meta), sample_world) \<and>
      getitem meta ''gemini_attempts'' = Some (JInt 0)"
    by blast
  from no_attempts_when_max_not_positive [of "sample_cfg (- 3)" all_up "''key''" "''http://a''"
      "''text''" "''html''" 1 sample_world] a(2,3)
  have "\<exists>meta. extract_with_gemini all_up (sample_cfg (- 3)) ''key'' ''http://a'' ''text'' ''html'' 1
              sample_world = (Inr (empty_record ''http://a'', meta), sample_world) \<and>
      getitem meta ''gemini_attempts'' \<noteq> Some (JInt (GEMINI_MAX_ATTEMPTS (sample_cfg (- 3))))"
    by blast
  then have 2: "\<exists>meta. extract_with_gemini all_up (sample_cfg (- 3)) ''key'' ''http://a'' ''text'' ''html'' 1
              sample_world = (Inr (empty_record ''http://a'', meta), sample_world) \<and>
      getitem meta ''gemini_attempts'' \<noteq> Some (JInt (- 3))"
    by (simp only: a(6))
  have f: "\<forall>i < nat (GEMINI_MAX_ATTEMPTS (sample_cfg 2)).
       attempt_fails gemini_down (sample_cfg 2) ''key''
         \<lparr>phone_candidates = extract_phone_candidates_from_html ''html'',
          content = slice_to ''text'' (MAX_CONTENT_CHARS (sample_cfg 2))\<rparr>
         (gemini_calls sample_world + i)"
    by (simp add: gemini_down_fails)
  from no_attempts_when_max_not_positive [of "sample_cfg 2" gemini_down "''key''" "''http://a''"
      "''text''" "''html''" 1 sample_world] a(4) f
  have "\<exists>meta w'. extract_with_gemini gemini_down (sample_cfg 2) ''key'' ''http://a'' ''text'' ''html'' 1
              sample_world = (Inr (empty_record ''http://a'', meta), w') \<and>
      getitem meta ''gemini_attempts'' = Some (JInt (GEMINI_MAX_ATTEMPTS (sample_cfg 2)))"
    by blast
  then have 3: "\<exists>meta w'. extract_with_gemini gemini_down (sample_cfg 2) ''key'' ''http://a'' ''text'' ''html'' 1
              sample_world = (Inr (empty_record ''http://a'', meta), w') \<and>
      getitem meta ''gemini_attempts'' = Some (JInt 2)"
    by (simp only: a(5))
  from a(1) 1 a(2) 2 a(4) 3 show ?thesis by blast
qed

section \<open>Claims about the run driver\<close>

lemma system_error_meta:
  "\<exists>meta. make_meta env w ''SYSTEM_ERROR'' None None (Some (GEMINI_MODEL cfg)) 0 None None = Inr meta \<and>
     getitem meta ''status_key'' = Some (JStr ''SYSTEM_ERROR'')"
  using make_meta_known [of "''SYSTEM_ERROR''" env w None None "Some (GEMINI_MODEL cfg)" 0 None None]
  by auto

text \<open>
  The loop, call by call: \<open>ws\<close> lists the worlds the calls start in, followed
  by the world the loop ends in.
\<close>

lemma run_urls_trace:
  "\<exists>rs ws. run_urls env cfg proc urls acc w = (Inr (acc @ rs), last ws) \<and>
     length rs = length urls \<and> length ws = Suc (length urls) \<and> ws ! 0 = w \<and>
     (\<forall>i < length urls.
        (case proc (urls ! i) (ws ! i) of
           (Inr record, w1) \<Rightarrow> rs ! i = record \<and> ws ! Suc i = w1
         | (Inl e, w1) \<Rightarrow> ws ! Suc i = w1 \<and>
             (\<exists>meta. make_meta env w1 ''SYSTEM_ERROR'' None None (Some (GEMINI_MODEL cfg)) 0
                        None None = Inr meta \<and>
                getitem meta ''status_key'' = Some (JStr ''SYSTEM_ERROR'') \<and>
                rs ! i = setitem ''meta'' (JObj meta) (empty_record (urls ! i)))))"
proof (induction urls arbitrary: acc w)
  case Nil
  show ?case by (intro exI [of _ "[]"] exI [of _ "[w]"]) simp
next
  case (Cons u urls)
  let ?step = "\<lambda>u wi r wj.
        (case proc u wi of
           (Inr record, w1) \<Rightarrow> r = record \<and> wj = w1
         | (Inl e, w1) \<Rightarrow> wj = w1 \<and>
             (\<exists>meta. make_meta env w1 ''SYSTEM_ERROR'' None None (Some (GEMINI_MODEL cfg)) 0
                        None None = Inr meta \<and>
                getitem meta ''status_key'' = Some (JStr ''SYSTEM_ERROR'') \<and>
                r = setitem ''meta'' (JObj meta) (empty_record u)))"
  obtain res w1 where p: "proc u w = (res, w1)" by (cases "proc u w")
  from system_error_meta [of env w1 cfg] obtain meta where
    m: "make_meta env w1 ''SYSTEM_ERROR'' None None (Some (GEMINI_MODEL cfg)) 0 None None = Inr meta"
    and ms: "getitem meta ''status_key'' = Some (JStr ''SYSTEM_ERROR'')" by blast
  define r where
    "r = (case res of Inr rcd \<Rightarrow> rcd | Inl e \<Rightarrow> setitem ''meta'' (JObj meta) (empty_record u))"
  have run: "run_urls env cfg proc (u # urls) acc w = run_urls env cfg proc urls (acc @ [r]) w1"
    using p m by (cases res) (simp_all add: r_def)
  have first: "?step u w r w1"
    using p m ms by (cases res) (simp_all add: r_def)
  from Cons.IH [of "acc @ [r]" w1] obtain rs ws where
    ih1: "run_urls env cfg proc urls (acc @ [r]) w1 = (Inr ((acc @ [r]) @ rs), last ws)"
    and ih2: "length rs = length urls"
    and ih3: "length ws = Suc (length urls)"
    and ih4: "ws ! 0 = w1"
    and rest: "\<forall>i < length urls. ?step (urls ! i) (ws ! i) (rs ! i) (ws ! Suc i)"
    by (elim exE conjE) (rule that)
  from ih3 have "ws \<noteq> []" by auto
  then have l: "last (w # ws) = last ws" by simp
  have "?step ((u # urls) ! i) ((w # ws) ! i) ((r # rs) ! i) ((w # ws) ! Suc i)"
    if "i < length (u # urls)" for i
  proof (cases i)
    case 0
    show ?thesis unfolding 0 nth_Cons_0 nth_Cons_Suc ih4 by (rule first)
  next
    case (Suc j)
    with that have "j < length urls" by simp
    note sj = rest [rule_format, OF this]
    show ?thesis unfolding Suc nth_Cons_Suc by (rule sj)
  qed
  then have all: "\<forall>i < length (u # urls).
      ?step ((u # urls) ! i) ((w # ws) ! i) ((r # rs) ! i) ((w # ws) ! Suc i)"
    by (intro allI impI)
  have a: "run_urls env cfg proc (u # urls) acc w = (Inr (acc @ (r # rs)), last (w # ws))"
    using run ih1 l by simp
  have b: "length (r # rs) = length (u # urls)" using ih2 by simp
  have c: "length (w # ws) = Suc (length (u # urls))" using ih3 by simp
  have d: "(w # ws) ! 0 = w" by simp
  from a b c d all show ?case
    by (intro exI [of _ "r # rs"] exI [of _ "w # ws"] conjI)
qed

lemma run_urls_returns: "\<exists>rs w'. run_urls env cfg proc urls [] w = (Inr rs, w')"
proof -
  from run_urls_trace [of env cfg proc urls "[]" w] obtain rs ws where
    "run_urls env cfg proc urls [] w = (Inr ([] @ rs), last ws)"
    by (elim exE conjE) (rule that)
  then show ?thesis by simp
qed

text \<open>What \<open>main_with\<close> does once the file, a URL and the credential are there.\<close>

lemma main_with_after_loop:
  assumes "urls_file os = Some file_text"
    and "load_urls file_text \<noteq> []"
    and "configure_gemini_client os = Inr client"
    and "run_urls env cfg (proc client) (load_urls file_text) [] w = (Inr rs, w1)"
  shows "main_with proc env cfg os w =
           (case write_text env (JArr (map JObj rs)) of
              Written \<Rightarrow> (Inr (), w1\<lparr>output_file := Some (Document (JArr (map JObj rs)))\<rparr>)
            | Raised_before_open e \<Rightarrow> (Inl e, w1)
            | Raised_after_open e \<Rightarrow> (Inl e, w1\<lparr>output_file := Some Truncated\<rparr>))"
  using assms by (simp add: main_with_def Let_def)

lemma may_raise_refl: "may_raise f f"
  by (simp add: may_raise_def)

lemma may_raise_url:
  assumes "may_raise proc (process_url env cfg client)" and "fst (proc u w0) = Inr r"
  shows "getitem r ''url'' = Some (JStr u)"
proof -
  from assms have "fst (process_url env cfg client u w0) = Inr r"
    unfolding may_raise_def by (metis sum.distinct(1))
  with process_url_total [of env cfg client u w0] show ?thesis by auto
qed

lemma two_urls_lines: "filter kept_line (splitlines two_urls) = [''http://a'', ''  http://b '']"
  by (simp add: two_urls_def splitlines_def is_linebreak_def kept_line_def strip_def
      py_isspace_def startswith_def)

lemma two_urls_loaded: "load_urls two_urls = [''http://a'', ''http://b'']"
  by (simp add: load_urls_def two_urls_lines strip_def py_isspace_def)

lemma no_urls_lines: "splitlines no_urls = [[], ''# nothing here'', ''   '']"
  by (simp add: no_urls_def splitlines_def is_linebreak_def)

lemma no_urls_loaded: "load_urls no_urls = []"
  by (simp add: load_urls_def no_urls_lines kept_line_def strip_def py_isspace_def
      startswith_def)

lemma key_configured:
  "configure_gemini_client (os_with_key file_text) = Inr ''key''"
  "configure_gemini_client (os_without_key file_text) = Inl RuntimeError"
  by (simp_all add: configure_gemini_client_def os_with_key_def os_without_key_def py_or_def)

text \<open>
  Claim C1, as stated, fails: it promises for every URL file that the run
  completes and writes one record per line. A file with no URL ends the run
  before anything is written; with URLs but no credential the run ends in
  \<^verbatim>\<open>RuntimeError\<close> before the loop; and when the text of the results is refused
  by the final write, the run ends in that exception after the loop and
  leaves a truncated file without the records.
\<close>

theorem one_record_per_url_counterexample:
  "load_urls no_urls = [] \<and>
   main all_up (sample_cfg 2) (os_with_key no_urls) sample_world = (Inr (), sample_world) \<and>
   output_file sample_world = None \<and>
   load_urls two_urls = [''http://a'', ''http://b''] \<and>
   main all_up (sample_cfg 2) (os_without_key two_urls) sample_world
     = (Inl RuntimeError, sample_world) \<and>
   fst (main write_refused (sample_cfg 2) (os_with_key two_urls) sample_world)
     = Inl UnicodeEncodeError \<and>
   output_file (snd (main write_refused (sample_cfg 2) (os_with_key two_urls) sample_world))
     = Some Truncated"
proof -
  have 1: "main all_up (sample_cfg 2) (os_with_key no_urls) sample_world = (Inr (), sample_world)"
    by (simp add: main_def main_with_def os_with_key_def no_urls_loaded)
  have 2: "output_file sample_world = None" by (simp add: sample_world_def)
  have 3: "main all_up (sample_cfg 2) (os_without_key two_urls) sample_world
             = (Inl RuntimeError, sample_world)"
  proof -
    have "urls_file (os_without_key two_urls) = Some two_urls" by (simp add: os_without_key_def)
    then show ?thesis
      by (simp add: main_def main_with_def two_urls_loaded key_configured(2))
  qed
  have f: "urls_file (os_with_key two_urls) = Some two_urls" by (simp add: os_with_key_def)
  have n: "load_urls two_urls \<noteq> []" by (simp add: two_urls_loaded)
  from run_urls_returns [of write_refused "sample_cfg 2"
      "process_url write_refused (sample_cfg 2) ''key''" "load_urls two_urls" sample_world]
  obtain rs w1 where
    "run_urls write_refused (sample_cfg 2) (process_url write_refused (sample_cfg 2) ''key'')
       (load_urls two_urls) [] sample_world = (Inr rs, w1)"
    by blast
  from main_with_after_loop [where proc = "process_url write_refused (sample_cfg 2)"
      and client = "''key''" and os = "os_with_key two_urls" and file_text = two_urls,
      OF f n key_configured(1) this]
  have "main write_refused (sample_cfg 2) (os_with_key two_urls) sample_world
          = (Inl UnicodeEncodeError, w1\<lparr>output_file := Some Truncated\<rparr>)"
    by (simp add: main_def write_refused_def)
  then have 4: "fst (main write_refused (sample_cfg 2) (os_with_key two_urls) sample_world)
                  = Inl UnicodeEncodeError"
    and 5: "output_file (snd (main write_refused (sample_cfg 2) (os_with_key two_urls)
              sample_world)) = Some Truncated"
    by simp_all
  from no_urls_loaded 1 2 two_urls_loaded 3 4 5 show ?thesis by (intro conjI)
qed

text \<open>
  Claim C1, amended. Let the URL file exist and hold at least one kept line
  (non-blank after stripping, not starting with \<^verbatim>\<open>#\<close>), let the credential be
  set, and let the per-URL function be \<open>process_url\<close> or \<open>process_url\<close>
  interrupted by any exception at any call (\<open>main\<close> is the first case). Then
  the loop completes with a sequence \<open>rs\<close> of exactly one record per kept
  line, in the order of the lines, however many calls failed. With \<open>ws ! i\<close>
  the world in which call \<open>i\<close> starts: the record at position \<open>i\<close> has the
  stripped line \<open>i\<close> as its url; it is the record the call returned, or, when
  the call raised, the url-only record whose metadata \<open>make_meta\<close> builds for
  \<^verbatim>\<open>SYSTEM_ERROR\<close>, all other fields null. The run then hands \<open>rs\<close> to the
  final write: if the write succeeds the run completes and the output file
  holds exactly \<open>rs\<close>; if it raises, the run ends in that exception and the
  file holds no record.
\<close>

theorem one_record_per_url:
  assumes "urls_file os = Some file_text"
    and "load_urls file_text \<noteq> []"
    and "configure_gemini_client os = Inr client"
    and "may_raise (proc client) (process_url env cfg client)"
  shows "\<exists>rs ws.
           length rs = length (filter kept_line (splitlines file_text)) \<and>
           length ws = Suc (length rs) \<and> ws ! 0 = w \<and>
           (\<forall>i < length rs.
              load_urls file_text ! i = strip (filter kept_line (splitlines file_text) ! i) \<and>
              getitem (rs ! i) ''url'' = Some (JStr (load_urls file_text ! i)) \<and>
              (case proc client (load_urls file_text ! i) (ws ! i) of
                 (Inr record, w1) \<Rightarrow> rs ! i = record \<and> ws ! Suc i = w1
               | (Inl e, w1) \<Rightarrow> ws ! Suc i = w1 \<and>
                   (\<exists>meta. make_meta env w1 ''SYSTEM_ERROR'' None None (Some (GEMINI_MODEL cfg)) 0
                              None None = Inr meta \<and>
                      rs ! i = setitem ''meta'' (JObj meta) (empty_record (load_urls file_text ! i))) \<and>
                   meta_get (rs ! i) ''status_key'' = Some (JStr ''SYSTEM_ERROR'') \<and>
                   (\<forall>k \<in> set FIELD_NAMES. k \<noteq> ''url'' \<longrightarrow> getitem (rs ! i) k = Some JNull))) \<and>
           main_with proc env cfg os w =
             (case write_text env (JArr (map JObj rs)) of
                Written \<Rightarrow>
                  (Inr (), (last ws)\<lparr>output_file := Some (Document (JArr (map JObj rs)))\<rparr>)
              | Raised_before_open e \<Rightarrow> (Inl e, last ws)
              | Raised_after_open e \<Rightarrow> (Inl e, (last ws)\<lparr>output_file := Some Truncated\<rparr>))"
proof -
  let ?lines = "filter kept_line (splitlines file_text)"
  let ?urls = "load_urls file_text"
  have urls: "?urls = map strip ?lines"
    by (simp add: load_urls_def)
  then have len_urls: "length ?urls = length ?lines" by simp
  from run_urls_trace [of env cfg "proc client" ?urls "[]" w]
  obtain rs ws where
    run0: "run_urls env cfg (proc client) ?urls [] w = (Inr ([] @ rs), last ws)"
    and len1: "length rs = length ?urls"
    and len2: "length ws = Suc (length ?urls)"
    and len3: "ws ! 0 = w"
    and steps: "\<forall>i < length ?urls.
        (case proc client (?urls ! i) (ws ! i) of
           (Inr record, w1) \<Rightarrow> rs ! i = record \<and> ws ! Suc i = w1
         | (Inl e, w1) \<Rightarrow> ws ! Suc i = w1 \<and>
             (\<exists>meta. make_meta env w1 ''SYSTEM_ERROR'' None None (Some (GEMINI_MODEL cfg)) 0
                        None None = Inr meta \<and>
                getitem meta ''status_key'' = Some (JStr ''SYSTEM_ERROR'') \<and>
                rs ! i = setitem ''meta'' (JObj meta) (empty_record (?urls ! i))))"
    by (elim exE conjE) (rule that)
  from run0 have run: "run_urls env cfg (proc client) ?urls [] w = (Inr rs, last ws)" by simp
  note m = main_with_after_loop [where proc = proc and client = client, OF assms(1-3) run]
  have each: "?urls ! i = strip (?lines ! i) \<and>
      getitem (rs ! i) ''url'' = Some (JStr (?urls ! i)) \<and>
      (case proc client (?urls ! i) (ws ! i) of
         (Inr record, w1) \<Rightarrow> rs ! i = record \<and> ws ! Suc i = w1
       | (Inl e, w1) \<Rightarrow> ws ! Suc i = w1 \<and>
           (\<exists>meta. make_meta env w1 ''SYSTEM_ERROR'' None None (Some (GEMINI_MODEL cfg)) 0
                      None None = Inr meta \<and>
              rs ! i = setitem ''meta'' (JObj meta) (empty_record (?urls ! i))) \<and>
           meta_get (rs ! i) ''status_key'' = Some (JStr ''SYSTEM_ERROR'') \<and>
           (\<forall>k \<in> set FIELD_NAMES. k \<noteq> ''url'' \<longrightarrow> getitem (rs ! i) k = Some JNull))"
    if i: "i < length rs" for i
  proof -
    from i len1 len_urls have il: "i < length ?lines" by simp
    then have u: "?urls ! i = strip (?lines ! i)" unfolding urls by simp
    from i len1 have iu: "i < length ?urls" by simp
    note step = steps [rule_format, OF iu]
    obtain res w1 where p: "proc client (?urls ! i) (ws ! i) = (res, w1)"
      by (cases "proc client (?urls ! i) (ws ! i)")
    show ?thesis
    proof (cases res)
      case (Inr rcd)
      with step p have r: "rs ! i = rcd" "ws ! Suc i = w1" by simp_all
      from p Inr have "fst (proc client (?urls ! i) (ws ! i)) = Inr rcd" by simp
      from may_raise_url [OF assms(4) this] have "getitem rcd ''url'' = Some (JStr (?urls ! i))" .
      with u r p Inr show ?thesis by simp
    next
      case (Inl e)
      with step p obtain meta where w: "ws ! Suc i = w1"
        and mm: "make_meta env w1 ''SYSTEM_ERROR'' None None (Some (GEMINI_MODEL cfg)) 0
                   None None = Inr meta"
        and ms: "getitem meta ''status_key'' = Some (JStr ''SYSTEM_ERROR'')"
        and r: "rs ! i = setitem ''meta'' (JObj meta) (empty_record (?urls ! i))"
        by auto
      have a: "getitem (rs ! i) ''url'' = Some (JStr (?urls ! i))"
        unfolding r by (simp add: url_only_record)
      have b: "meta_get (rs ! i) ''status_key'' = Some (JStr ''SYSTEM_ERROR'')"
        unfolding r using ms by (simp add: meta_get_with_meta)
      have c: "\<forall>k \<in> set FIELD_NAMES. k \<noteq> ''url'' \<longrightarrow> getitem (rs ! i) k = Some JNull"
        unfolding r by (simp add: url_only_record)
      from mm r have d: "\<exists>meta. make_meta env w1 ''SYSTEM_ERROR'' None None
            (Some (GEMINI_MODEL cfg)) 0 None None = Inr meta \<and>
            rs ! i = setitem ''meta'' (JObj meta) (empty_record (?urls ! i))"
        by blast
      from u a b c d w p Inl show ?thesis by simp
    qed
  qed
  have "length rs = length ?lines" using len1 len_urls by simp
  moreover have "length ws = Suc (length rs)" using len1 len2 by simp
  moreover note len3
  moreover from each have "\<forall>i < length rs.
      ?urls ! i = strip (?lines ! i) \<and>
      getitem (rs ! i) ''url'' = Some (JStr (?urls ! i)) \<and>
      (case proc client (?urls ! i) (ws ! i) of
         (Inr record, w1) \<Rightarrow> rs ! i = record \<and> ws ! Suc i = w1
       | (Inl e, w1) \<Rightarrow> ws ! Suc i = w1 \<and>
           (\<exists>meta. make_meta env w1 ''SYSTEM_ERROR'' None None (Some (GEMINI_MODEL cfg)) 0
                      None None = Inr meta \<and>
              rs ! i = setitem ''meta'' (JObj meta) (empty_record (?urls ! i))) \<and>
           meta_get (rs ! i) ''status_key'' = Some (JStr ''SYSTEM_ERROR'') \<and>
           (\<forall>k \<in> set FIELD_NAMES. k \<noteq> ''url'' \<longrightarrow> getitem (rs ! i) k = Some JNull))"
    by (intro allI impI)
  ultimately show ?thesis using m
    by (intro exI [of _ rs] exI [of _ ws] conjI)
qed

theorem one_record_per_url_witness:
  "urls_file (os_with_key two_urls) = Some two_urls \<and>
   load_urls two_urls = [''http://a'', ''http://b''] \<and>
   configure_gemini_client (os_with_key two_urls) = Inr ''key'' \<and>
   may_raise (raising_on_b ''key'') (process_url crawl_down (sample_cfg 2) ''key'') \<and>
   (\<exists>rs w'. main_with raising_on_b crawl_down (sample_cfg 2) (os_with_key two_urls) sample_world
               = (Inr (), w') \<and>
      output_file w' = Some (Document (JArr (map JObj rs))) \<and> length rs = 2 \<and>
      map (\<lambda>r. getitem r ''url'') rs = [Some (JStr ''http://a''), Some (JStr ''http://b'')] \<and>
      fst (process_url crawl_down (sample_cfg 2) ''key'' ''http://a'' sample_world) = Inr (rs ! 0) \<and>
      meta_get (rs ! 1) ''status_key'' = Some (JStr ''SYSTEM_ERROR'') \<and>
      getitem (rs ! 1) ''price'' = Some JNull) \<and>
   (\<exists>rs w'. main crawl_down (sample_cfg 2) (os_with_key two_urls) sample_world = (Inr (), w') \<and>
      output_file w' = Some (Document (JArr (map JObj rs))) \<and> length rs = 2)"
proof -
  have 1: "urls_file (os_with_key two_urls) = Some two_urls" by (simp add: os_with_key_def)
  have 2: "load_urls two_urls \<noteq> []" by (simp add: two_urls_loaded)
  note 3 = key_configured(1) [of two_urls]
  have 4: "may_raise (raising_on_b ''key'') (process_url crawl_down (sample_cfg 2) ''key'')"
    by (simp add: may_raise_def raising_on_b_def)
  have wr: "write_text crawl_down document = Written" for document
    by (simp add: crawl_down_def sample_collab_def)
  from one_record_per_url [where proc = raising_on_b and client = "''key''" and env = crawl_down
      and cfg = "sample_cfg 2" and w = sample_world, OF 1 2 3 4] obtain rs ws where
    len: "length rs = length (filter kept_line (splitlines two_urls))"
    and w0: "ws ! 0 = sample_world"
    and steps: "\<forall>i < length rs.
        load_urls two_urls ! i = strip (filter kept_line (splitlines two_urls) ! i) \<and>
        getitem (rs ! i) ''url'' = Some (JStr (load_urls two_urls ! i)) \<and>
        (case raising_on_b ''key'' (load_urls two_urls ! i) (ws ! i) of
           (Inr record, w1) \<Rightarrow> rs ! i = record \<and> ws ! Suc i = w1
         | (Inl e, w1) \<Rightarrow> ws ! Suc i = w1 \<and>
             (\<exists>meta. make_meta crawl_down w1 ''SYSTEM_ERROR'' None None
                        (Some (GEMINI_MODEL (sample_cfg 2))) 0 None None = Inr meta \<and>
                rs ! i = setitem ''meta'' (JObj meta) (empty_record (load_urls two_urls ! i))) \<and>
             meta_get (rs ! i) ''status_key'' = Some (JStr ''SYSTEM_ERROR'') \<and>
             (\<forall>k \<in> set FIELD_NAMES. k \<noteq> ''url'' \<longrightarrow> getitem (rs ! i) k = Some JNull))"
    and m: "main_with raising_on_b crawl_down (sample_cfg 2) (os_with_key two_urls) sample_world =
             (case write_text crawl_down (JArr (map JObj rs)) of
                Written \<Rightarrow>
                  (Inr (), (last ws)\<lparr>output_file := Some (Document (JArr (map JObj rs)))\<rparr>)
              | Raised_before_open e \<Rightarrow> (Inl e, last ws)
              | Raised_after_open e \<Rightarrow> (Inl e, (last ws)\<lparr>output_file := Some Truncated\<rparr>))"
    by (elim exE conjE) (rule that)
  from len have l2: "length rs = 2" by (simp add: two_urls_lines)
  then have i0: "0 < length rs" and i1: "1 < length rs" by simp_all
  from l2 obtain x y where rs: "rs = [x, y]"
    by (auto simp: length_Suc_conv numeral_2_eq_2)
  from process_url_total [of crawl_down "sample_cfg 2" "''key''" "''http://a''" sample_world]
  obtain r0 v0 where
    p0: "process_url crawl_down (sample_cfg 2) ''key'' ''http://a'' sample_world = (Inr r0, v0)"
    by blast
  then have q0: "raising_on_b ''key'' ''http://a'' sample_world = (Inr r0, v0)"
    by (simp add: raising_on_b_def)
  have q1: "raising_on_b ''key'' ''http://b'' v = (Inl (CollaboratorError ''unexpected''), v)" for v
    by (simp add: raising_on_b_def)
  note s0 = steps [rule_format, OF i0, THEN conjunct2]
  note s1 = steps [rule_format, OF i1, THEN conjunct2]
  from s0 [THEN conjunct1]
  have a: "getitem (rs ! 0) ''url'' = Some (JStr ''http://a'')"
    by (simp add: two_urls_loaded)
  from s0 [THEN conjunct2]
  have a': "rs ! 0 = r0"
    by (simp add: two_urls_loaded w0 q0)
  from s1 [THEN conjunct1]
  have b: "getitem (rs ! 1) ''url'' = Some (JStr ''http://b'')"
    by (simp add: two_urls_loaded)
  from s1 [THEN conjunct2]
  have b': "meta_get (rs ! 1) ''status_key'' = Some (JStr ''SYSTEM_ERROR'')"
    and b'': "\<forall>k \<in> set FIELD_NAMES. k \<noteq> ''url'' \<longrightarrow> getitem (rs ! 1) k = Some JNull"
    by (simp_all add: two_urls_loaded q1)
  have "''price'' \<in> set FIELD_NAMES" by (simp add: FIELD_NAMES_def)
  with b'' have c: "getitem (rs ! 1) ''price'' = Some JNull" by simp
  from p0 a' have d: "fst (process_url crawl_down (sample_cfg 2) ''key'' ''http://a'' sample_world)
      = Inr (rs ! 0)" by simp
  from a b rs have e: "map (\<lambda>r. getitem r ''url'') rs
      = [Some (JStr ''http://a''), Some (JStr ''http://b'')]" by simp
  let ?w' = "(last ws)\<lparr>output_file := Some (Document (JArr (map JObj rs)))\<rparr>"
  from m have f: "main_with raising_on_b crawl_down (sample_cfg 2) (os_with_key two_urls)
      sample_world = (Inr (), ?w')" by (simp add: wr)
  have g: "output_file ?w' = Some (Document (JArr (map JObj rs)))" by simp
  have first: "\<exists>rs w'. main_with raising_on_b crawl_down (sample_cfg 2) (os_with_key two_urls)
               sample_world = (Inr (), w') \<and>
      output_file w' = Some (Document (JArr (map JObj rs))) \<and> length rs = 2 \<and>
      map (\<lambda>r. getitem r ''url'') rs = [Some (JStr ''http://a''), Some (JStr ''http://b'')] \<and>
      fst (process_url crawl_down (sample_cfg 2) ''key'' ''http://a'' sample_world) = Inr (rs ! 0) \<and>
      meta_get (rs ! 1) ''status_key'' = Some (JStr ''SYSTEM_ERROR'') \<and>
      getitem (rs ! 1) ''price'' = Some JNull"
    using f g l2 e d b' c by (intro exI [of _ rs] exI [of _ ?w'] conjI)
  have second: "\<exists>rs w'. main crawl_down (sample_cfg 2) (os_with_key two_urls) sample_world
        = (Inr (), w') \<and>
      output_file w' = Some (Document (JArr (map JObj rs))) \<and> length rs = 2"
  proof -
    from one_record_per_url [where proc = "process_url crawl_down (sample_cfg 2)"
        and client = "''key''" and env = crawl_down and cfg = "sample_cfg 2" and w = sample_world,
        OF 1 2 3 may_raise_refl]
    obtain qs vs where
      n: "length qs = length (filter kept_line (splitlines two_urls))"
      and k: "main_with (process_url crawl_down (sample_cfg 2)) crawl_down (sample_cfg 2)
         (os_with_key two_urls) sample_world =
             (case write_text crawl_down (JArr (map JObj qs)) of
                Written \<Rightarrow>
                  (Inr (), (last vs)\<lparr>output_file := Some (Document (JArr (map JObj qs)))\<rparr>)
              | Raised_before_open e \<Rightarrow> (Inl e, last vs)
              | Raised_after_open e \<Rightarrow> (Inl e, (last vs)\<lparr>output_file := Some Truncated\<rparr>))"
      by (elim exE conjE) (rule that)
    let ?v = "(last vs)\<lparr>output_file := Some (Document (JArr (map JObj qs)))\<rparr>"
    from k have "main crawl_down (sample_cfg 2) (os_with_key two_urls) sample_world = (Inr (), ?v)"
      by (simp add: main_def wr)
    moreover have "output_file ?v = Some (Document (JArr (map JObj qs)))" by simp
    moreover from n have "length qs = 2" by (simp add: two_urls_lines)
    ultimately show ?thesis by (intro exI [of _ qs] exI [of _ ?v] conjI)
  qed
  from 1 two_urls_loaded 3 4 first second show ?thesis by (intro conjI)
qed

text \<open>
  Claim C10. If the URL file exists and each of its lines is blank or starts
  with \<^verbatim>\<open>#\<close>, the driver returns normally in the world it started in: no
  collaborator is called and no output is written, whatever the per-URL
  function and whatever the credential variables hold, even when the
  credential check would raise. Only with at least one URL does a missing
  credential abort the run.
\<close>

theorem no_urls_no_run:
  assumes "urls_file os = Some file_text"
  shows "((\<forall>line \<in> set (splitlines file_text). strip line = [] \<or> startswith line ''#'') \<longrightarrow>
            main env cfg os w = (Inr (), w) \<and> main_with proc env cfg os w = (Inr (), w)) \<and>
         (load_urls file_text \<noteq> [] \<and> configure_gemini_client os = Inl e \<longrightarrow>
            main env cfg os w = (Inl e, w))"
proof -
  have "load_urls file_text = []"
    if "\<forall>line \<in> set (splitlines file_text). strip line = [] \<or> startswith line ''#''"
  proof -
    from that have "filter kept_line (splitlines file_text) = []"
      by (auto simp: filter_empty_conv kept_line_def)
    then show ?thesis by (simp add: load_urls_def)
  qed
  then show ?thesis using assms by (auto simp: main_def main_with_def)
qed

theorem no_urls_no_run_witness:
  "urls_file (os_without_key no_urls) = Some no_urls \<and>
   splitlines no_urls = [[], ''# nothing here'', ''   ''] \<and>
   load_urls no_urls = [] \<and>
   configure_gemini_client (os_without_key no_urls) = Inl RuntimeError \<and>
   main all_up (sample_cfg 2) (os_without_key no_urls) sample_world = (Inr (), sample_world) \<and>
   output_file sample_world = None \<and>
   urls_file (os_without_key two_urls) = Some two_urls \<and>
   load_urls two_urls \<noteq> [] \<and>
   configure_gemini_client (os_without_key two_urls) = Inl RuntimeError \<and>
   main all_up (sample_cfg 2) (os_without_key two_urls) sample_world = (Inl RuntimeError, sample_world)"
proof -
  have 1: "urls_file (os_without_key no_urls) = Some no_urls"
    "urls_file (os_without_key two_urls) = Some two_urls"
    by (simp_all add: os_without_key_def)
  have 2: "\<forall>line \<in> set (splitlines no_urls). strip line = [] \<or> startswith line ''#''"
    by (simp add: no_urls_lines strip_def py_isspace_def startswith_def)
  have 3: "configure_gemini_client (os_without_key no_urls) = Inl RuntimeError"
    "configure_gemini_client (os_without_key two_urls) = Inl RuntimeError"
    by (simp_all add: configure_gemini_client_def os_without_key_def py_or_def)
  have 4: "load_urls two_urls \<noteq> []" by (simp add: load_urls_def two_urls_lines)
  from no_urls_no_run [OF 1(1), of all_up "sample_cfg 2" sample_world "\<lambda>c u w. (Inl KeyError, w)"
      RuntimeError] 2
  have 5: "main all_up (sample_cfg 2) (os_without_key no_urls) sample_world = (Inr (), sample_world)"
    by blast
  from no_urls_no_run [OF 1(2), of all_up "sample_cfg 2" sample_world "\<lambda>c u w. (Inl KeyError, w)"
      RuntimeError] 4 3(2)
  have 6: "main all_up (sample_cfg 2) (os_without_key two_urls) sample_world
             = (Inl RuntimeError, sample_world)"
    by blast
  have 7: "output_file sample_world = None" by (simp add: sample_world_def)
  have 8: "load_urls no_urls = []"
    by (simp add: load_urls_def no_urls_lines kept_line_def strip_def py_isspace_def
        startswith_def)
  from 1 3 4 5 6 7 8 no_urls_lines show ?thesis by blast
qed

end
